theory Spec2Isabelle
  imports Complex_Main "HOL-Library.Sublist" "HOL-Library.List_Lexorder" "HOL-Library.Char_ord"
begin

section \<open>Circuit breaker (cmr\_agent/cmr/circuit.py)\<close>

text \<open>
  The class \<^verbatim>\<open>CircuitBreaker\<close> has four attributes. The two counters are Python
  integers; \<^verbatim>\<open>open_until\<close> holds a reading of \<^verbatim>\<open>time.time()\<close> plus a number of
  seconds and is modelled as a real number, with \<open>0\<close> the value the constructor and
  \<^verbatim>\<open>record_success\<close> store for "no open window". Every method that reads the clock
  takes the reading as an argument, and every method returns the breaker it leaves
  behind, so that a method which does not assign to \<^verbatim>\<open>self\<close> is seen to return its
  argument unchanged.
\<close>

record CircuitBreaker =
  failure_threshold :: int
  recovery_time_seconds :: int
  failures :: int
  open_until :: real

definition CircuitBreaker_init :: "int \<Rightarrow> int \<Rightarrow> CircuitBreaker" where
  "CircuitBreaker_init threshold recovery =
     \<lparr> failure_threshold = threshold, recovery_time_seconds = recovery,
       failures = 0, open_until = 0 \<rparr>"

definition CircuitBreaker_default :: CircuitBreaker where
  "CircuitBreaker_default = CircuitBreaker_init 5 30"

definition allow :: "CircuitBreaker \<Rightarrow> real \<Rightarrow> bool \<times> CircuitBreaker" where
  "allow cb now =
     (if open_until cb \<noteq> 0 \<and> now < open_until cb then (False, cb) else (True, cb))"

definition record_success :: "CircuitBreaker \<Rightarrow> CircuitBreaker" where
  "record_success cb = cb\<lparr> failures := 0, open_until := 0 \<rparr>"

definition record_failure :: "CircuitBreaker \<Rightarrow> real \<Rightarrow> CircuitBreaker" where
  "record_failure cb now =
     (let cb1 = cb\<lparr> failures := failures cb + 1 \<rparr>
      in if failures cb1 \<ge> failure_threshold cb1
         then cb1\<lparr> open_until := now + real_of_int (recovery_time_seconds cb1) \<rparr>
         else cb1)"

text \<open>A run of consecutive failures, each recorded at its own clock reading.\<close>

definition record_failures :: "CircuitBreaker \<Rightarrow> real list \<Rightarrow> CircuitBreaker" where
  "record_failures cb ts = foldl record_failure cb ts"

subsection \<open>Facts about the breaker\<close>

lemma record_failure_config:
  "failure_threshold (record_failure cb t) = failure_threshold cb"
  "recovery_time_seconds (record_failure cb t) = recovery_time_seconds cb"
  by (simp_all add: record_failure_def Let_def)

lemma record_failure_count: "failures (record_failure cb t) = failures cb + 1"
  by (simp add: record_failure_def Let_def)

lemma record_failure_window:
  "open_until (record_failure cb t) =
     (if failure_threshold cb \<le> failures cb + 1
      then t + real_of_int (recovery_time_seconds cb) else open_until cb)"
  by (simp add: record_failure_def Let_def)

lemma record_failures_config:
  "failure_threshold (record_failures cb ts) = failure_threshold cb"
  "recovery_time_seconds (record_failures cb ts) = recovery_time_seconds cb"
  unfolding record_failures_def
  by (induction ts arbitrary: cb) (simp_all add: record_failure_config)

lemma record_failures_count:
  "failures (record_failures cb ts) = failures cb + int (length ts)"
  unfolding record_failures_def
  by (induction ts arbitrary: cb) (simp_all add: record_failure_count)

lemma record_failures_snoc:
  "record_failures cb (ts @ [t]) = record_failure (record_failures cb ts) t"
  by (simp add: record_failures_def)

lemma record_failures_window:
  assumes "ts \<noteq> []" and "failure_threshold cb \<le> failures cb + int (length ts)"
  shows "open_until (record_failures cb ts) =
           last ts + real_of_int (recovery_time_seconds cb)"
proof -
  from assms(1) obtain us u where ts: "ts = us @ [u]"
    by (metis rev_exhaust)
  have "failure_threshold (record_failures cb us) \<le> failures (record_failures cb us) + 1"
    using assms(2) by (simp add: ts record_failures_config record_failures_count)
  then show ?thesis
    by (simp add: ts record_failures_snoc record_failure_window record_failures_config)
qed

lemma allow_fst: "fst (allow cb now) = (open_until cb = 0 \<or> open_until cb \<le> now)"
  by (auto simp: allow_def)

lemma allow_snd: "snd (allow cb now) = cb"
  by (simp add: allow_def)

text \<open>
  C1. \<^verbatim>\<open>allow()\<close> is true exactly when the open window is unset (zero) or the clock
  is at or past it, and it leaves the breaker unchanged. \<^verbatim>\<open>record_success()\<close> sets
  the failure count to 0 and clears the window. \<^verbatim>\<open>record_failure()\<close> adds one to the
  count and, when the new count has reached \<^verbatim>\<open>failure_threshold\<close>, sets the window to
  the clock reading plus \<^verbatim>\<open>recovery_time_seconds\<close>; the defaults are 5 and 30. Hence
  after a run of consecutive failures that is at least \<^verbatim>\<open>failure_threshold\<close> long
  (counted from a breaker whose count is not negative, as after construction or a
  success), the window ends \<^verbatim>\<open>recovery_time_seconds\<close> after the last failure:
  \<^verbatim>\<open>allow()\<close> is false at every (positive, as \<^verbatim>\<open>time.time()\<close> is) clock reading
  before that instant and true at every reading from it on.
\<close>

theorem circuit_breaker_contract:
  "fst (allow cb now) = (open_until cb = 0 \<or> open_until cb \<le> now) \<and>
   snd (allow cb now) = cb \<and>
   failures (record_success cb) = 0 \<and> open_until (record_success cb) = 0 \<and>
   failures (record_failure cb now) = failures cb + 1 \<and>
   open_until (record_failure cb now) =
     (if failure_threshold cb \<le> failures cb + 1
      then now + real_of_int (recovery_time_seconds cb) else open_until cb) \<and>
   failure_threshold CircuitBreaker_default = 5 \<and>
   recovery_time_seconds CircuitBreaker_default = 30 \<and>
   failures CircuitBreaker_default = 0 \<and> open_until CircuitBreaker_default = 0 \<and>
   (ts \<noteq> [] \<and> 0 \<le> failures cb \<and> failure_threshold cb \<le> int (length ts) \<longrightarrow>
     (\<forall>t. 0 < t \<and> t < last ts + real_of_int (recovery_time_seconds cb)
          \<longrightarrow> \<not> fst (allow (record_failures cb ts) t)) \<and>
     (\<forall>t. last ts + real_of_int (recovery_time_seconds cb) \<le> t
          \<longrightarrow> fst (allow (record_failures cb ts) t)))"
proof -
  have defaults: "failure_threshold CircuitBreaker_default = 5 \<and>
      recovery_time_seconds CircuitBreaker_default = 30 \<and>
      failures CircuitBreaker_default = 0 \<and> open_until CircuitBreaker_default = 0"
    by (simp add: CircuitBreaker_default_def CircuitBreaker_init_def)
  have success: "failures (record_success cb) = 0 \<and> open_until (record_success cb) = 0"
    by (simp add: record_success_def)
  have run: "(\<forall>t. 0 < t \<and> t < last ts + real_of_int (recovery_time_seconds cb)
          \<longrightarrow> \<not> fst (allow (record_failures cb ts) t)) \<and>
     (\<forall>t. last ts + real_of_int (recovery_time_seconds cb) \<le> t
          \<longrightarrow> fst (allow (record_failures cb ts) t))"
    if ne: "ts \<noteq> []" and nonneg: "0 \<le> failures cb"
      and len: "failure_threshold cb \<le> int (length ts)"
  proof -
    have w: "open_until (record_failures cb ts) =
               last ts + real_of_int (recovery_time_seconds cb)"
      using ne nonneg len by (intro record_failures_window) simp_all
    show ?thesis
      by (auto simp: allow_fst w)
  qed
  show ?thesis
    using defaults success run
    by (simp only: allow_fst allow_snd record_failure_count record_failure_window) blast
qed

theorem circuit_breaker_contract_witness:
  "\<not> fst (allow (record_failures CircuitBreaker_default [100, 101, 102, 103, 104]) 120) \<and>
   \<not> fst (allow (record_failures CircuitBreaker_default [100, 101, 102, 103, 104]) 133.5) \<and>
   fst (allow (record_failures CircuitBreaker_default [100, 101, 102, 103, 104]) 134) \<and>
   fst (allow (record_failures CircuitBreaker_default [100, 101, 102, 103]) 103)"
proof -
  let ?ts = "[100, 101, 102, 103, 104] :: real list"
  have cfg: "failure_threshold CircuitBreaker_default = 5"
    "recovery_time_seconds CircuitBreaker_default = 30"
    "failures CircuitBreaker_default = 0"
    by (simp_all add: CircuitBreaker_default_def CircuitBreaker_init_def)
  have hyp: "?ts \<noteq> [] \<and> 0 \<le> failures CircuitBreaker_default \<and>
      failure_threshold CircuitBreaker_default \<le> int (length ?ts)"
    by (simp add: cfg)
  from circuit_breaker_contract [of CircuitBreaker_default 0 ?ts] hyp
  have w: "(\<forall>t. 0 < t \<and> t < last ?ts + real_of_int (recovery_time_seconds CircuitBreaker_default)
          \<longrightarrow> \<not> fst (allow (record_failures CircuitBreaker_default ?ts) t)) \<and>
     (\<forall>t. last ?ts + real_of_int (recovery_time_seconds CircuitBreaker_default) \<le> t
          \<longrightarrow> fst (allow (record_failures CircuitBreaker_default ?ts) t))"
    by blast
  have a: "\<not> fst (allow (record_failures CircuitBreaker_default ?ts) 120)"
    using w by (simp add: cfg)
  have b: "\<not> fst (allow (record_failures CircuitBreaker_default ?ts) 133.5)"
    using w by (simp add: cfg)
  have c: "fst (allow (record_failures CircuitBreaker_default ?ts) 134)"
    using w by (simp add: cfg)
  have d: "fst (allow (record_failures CircuitBreaker_default [100, 101, 102, 103]) 103)"
    by (simp add: record_failures_def record_failure_def allow_def Let_def
        CircuitBreaker_default_def CircuitBreaker_init_def)
  show ?thesis
    using a b c d by blast
qed

text \<open>
  C10. Once the failure count has reached the threshold, \<^verbatim>\<open>allow()\<close> answers from
  the window alone and returns the breaker as it was, so neither the passing of time nor
  a call of \<^verbatim>\<open>allow()\<close> lowers the count; only \<^verbatim>\<open>record_success()\<close> does. When the
  window has elapsed and no success came in between, \<^verbatim>\<open>allow()\<close> is true again, and
  one further \<^verbatim>\<open>record_failure()\<close> at clock reading \<open>t2\<close> sets the window to
  \<open>t2\<close> plus the full \<^verbatim>\<open>recovery_time_seconds\<close>: \<^verbatim>\<open>allow()\<close> is false at every
  positive reading before that instant.
\<close>

theorem circuit_breaker_reopens_after_expiry:
  assumes "failure_threshold cb \<le> failures cb"
  shows "snd (allow cb t1) = cb \<and>
         failures (snd (allow cb t1)) = failures cb \<and>
         failure_threshold cb \<le> failures (snd (allow cb t1)) \<and>
         fst (allow cb t1) = (open_until cb = 0 \<or> open_until cb \<le> t1) \<and>
         failures (record_failure (snd (allow cb t1)) t2) = failures cb + 1 \<and>
         open_until (record_failure (snd (allow cb t1)) t2) =
           t2 + real_of_int (recovery_time_seconds cb) \<and>
         (\<forall>t. 0 < t \<and> t < t2 + real_of_int (recovery_time_seconds cb)
              \<longrightarrow> \<not> fst (allow (record_failure (snd (allow cb t1)) t2) t)) \<and>
         (\<forall>t. t2 + real_of_int (recovery_time_seconds cb) \<le> t
              \<longrightarrow> fst (allow (record_failure (snd (allow cb t1)) t2) t))"
proof -
  have w: "open_until (record_failure cb t2) = t2 + real_of_int (recovery_time_seconds cb)"
    using assms by (simp add: record_failure_window)
  show ?thesis
    using assms by (auto simp: allow_snd allow_fst record_failure_count w)
qed

theorem circuit_breaker_reopens_after_expiry_witness:
  "fst (allow (record_failures CircuitBreaker_default [100, 101, 102, 103, 104]) 140) \<and>
   failures (snd (allow (record_failures CircuitBreaker_default [100, 101, 102, 103, 104]) 140)) = 5 \<and>
   open_until (record_failure
      (snd (allow (record_failures CircuitBreaker_default [100, 101, 102, 103, 104]) 140)) 141) = 171 \<and>
   \<not> fst (allow (record_failure
      (snd (allow (record_failures CircuitBreaker_default [100, 101, 102, 103, 104]) 140)) 141) 170)"
proof -
  let ?cb = "record_failures CircuitBreaker_default [100, 101, 102, 103, 104]"
  have cfg: "failure_threshold ?cb = 5" "recovery_time_seconds ?cb = 30" "failures ?cb = 5"
    by (simp_all add: record_failures_config record_failures_count
        CircuitBreaker_default_def CircuitBreaker_init_def)
  have win: "open_until ?cb = 134"
    by (subst record_failures_window)
      (simp_all add: CircuitBreaker_default_def CircuitBreaker_init_def)
  have hyp: "failure_threshold ?cb \<le> failures ?cb"
    by (simp add: cfg)
  note inst = circuit_breaker_reopens_after_expiry [OF hyp, of 140 141]
  have "fst (allow ?cb 140) = (open_until ?cb = 0 \<or> open_until ?cb \<le> 140)"
    using inst by blast
  then have a: "fst (allow ?cb 140)"
    by (simp add: win)
  have "failures (snd (allow ?cb 140)) = failures ?cb"
    using inst by blast
  then have b: "failures (snd (allow ?cb 140)) = 5"
    by (simp only: cfg)
  have "open_until (record_failure (snd (allow ?cb 140)) 141) =
          141 + real_of_int (recovery_time_seconds ?cb)"
    using inst by blast
  then have c: "open_until (record_failure (snd (allow ?cb 140)) 141) = 171"
    by (simp add: cfg)
  have "\<forall>t. 0 < t \<and> t < 141 + real_of_int (recovery_time_seconds ?cb)
          \<longrightarrow> \<not> fst (allow (record_failure (snd (allow ?cb 140)) 141) t)"
    using inst by blast
  then have "0 < (170::real) \<and> 170 < 141 + real_of_int (recovery_time_seconds ?cb)
          \<longrightarrow> \<not> fst (allow (record_failure (snd (allow ?cb 140)) 141) 170)"
    by (rule spec)
  then have d: "\<not> fst (allow (record_failure (snd (allow ?cb 140)) 141) 170)"
    by (simp add: cfg)
  show ?thesis
    using a b c d by blast
qed

section \<open>Resilient search client (cmr\_agent/cmr/client.py)\<close>

text \<open>
  Exceptions are values. \<^verbatim>\<open>RuntimeError\<close> is the class the client raises when the
  breaker rejects a call; \<^verbatim>\<open>TransportError\<close> stands for the exceptions of the HTTP
  library's \<^verbatim>\<open>get\<close>, \<^verbatim>\<open>HTTPStatusError\<close> for the one of \<^verbatim>\<open>raise_for_status\<close>
  (raised unless the status is 2xx), \<^verbatim>\<open>JSONDecodeError\<close> for a failure of
  \<^verbatim>\<open>resp.json()\<close>, \<^verbatim>\<open>ValueError\<close> for the built-in of that name, all of them
  subclasses of \<^verbatim>\<open>Exception\<close> and none of \<^verbatim>\<open>RuntimeError\<close>; \<^verbatim>\<open>RetryError\<close> is what the retry decorator raises, wrapping the
  exception of the last attempt. A response carries its status and what \<^verbatim>\<open>json()\<close>
  gives. What the server and the clock do at one attempt is an argument: the clock
  reading at the \<^verbatim>\<open>allow()\<close> check, what \<^verbatim>\<open>get\<close> does, and the clock reading at a
  \<^verbatim>\<open>record_failure()\<close>.
\<close>

datatype py_exception =
    RuntimeError string
  | TransportError string
  | HTTPStatusError int
  | JSONDecodeError
  | ValueError string
  | RetryError py_exception

record 'a response =
  status_code :: int
  json :: "py_exception + 'a"

datatype 'a outcome = Raises py_exception | Responds "'a response"

record 'a attempt_env =
  t_allow :: real
  outcome :: "'a outcome"
  t_failure :: real

definition is_success :: "'a response \<Rightarrow> bool" where
  "is_success resp = (200 \<le> status_code resp \<and> status_code resp \<le> 299)"

definition raise_for_status :: "'a response \<Rightarrow> py_exception + 'a response" where
  "raise_for_status resp =
     (if is_success resp then Inr resp else Inl (HTTPStatusError (status_code resp)))"

definition circuit_open_error :: py_exception where
  "circuit_open_error = RuntimeError ''CMR circuit open; temporarily rejecting requests''"

definition safe_get_attempt ::
    "CircuitBreaker \<Rightarrow> 'a attempt_env \<Rightarrow> (py_exception + 'a response) \<times> CircuitBreaker" where
  "safe_get_attempt cb env =
     (case allow cb (t_allow env) of
        (allowed, cb) \<Rightarrow>
          if \<not> allowed then (Inl circuit_open_error, cb)
          else (case outcome env of
                  Raises e \<Rightarrow> (Inl e, record_failure cb (t_failure env))
                | Responds resp \<Rightarrow>
                    (case raise_for_status resp of
                       Inl e \<Rightarrow> (Inl e, record_failure cb (t_failure env))
                     | Inr resp \<Rightarrow> (Inr resp, record_success cb))))"

text \<open>
  The decorator \<^verbatim>\<open>@retry(stop=stop_after_attempt(3), wait=wait_exponential(multiplier=0.5,
  min=0.5, max=3))\<close> is library code. As the library documents it: attempts are numbered
  from 1; an attempt that returns ends the call; after an attempt that raises, the call
  ends with \<^verbatim>\<open>RetryError\<close> when the attempt number has reached 3, and otherwise sleeps
  \<^verbatim>\<open>multiplier * 2 ** (attempt_number - 1)\<close> seconds, clamped between \<^verbatim>\<open>min\<close> and
  \<^verbatim>\<open>max\<close>, and tries again. The sleeps of a call are returned with its result.
\<close>

definition wait_exponential :: "real \<Rightarrow> real \<Rightarrow> real \<Rightarrow> nat \<Rightarrow> real" where
  "wait_exponential multiplier min_wait max_wait attempt_number =
     max (max 0 min_wait) (min (multiplier * 2 ^ (attempt_number - 1)) max_wait)"

definition stop_after_attempt :: "nat \<Rightarrow> nat \<Rightarrow> bool" where
  "stop_after_attempt max_attempt_number attempt_number = (attempt_number \<ge> max_attempt_number)"

definition safe_get_wait :: "nat \<Rightarrow> real" where
  "safe_get_wait attempt_number = wait_exponential 0.5 0.5 3 attempt_number"

definition safe_get_stop :: "nat \<Rightarrow> bool" where
  "safe_get_stop attempt_number = stop_after_attempt 3 attempt_number"

function safe_get_from ::
    "nat \<Rightarrow> CircuitBreaker \<Rightarrow> (nat \<Rightarrow> 'a attempt_env) \<Rightarrow> real list \<Rightarrow>
     (py_exception + 'a response) \<times> CircuitBreaker \<times> real list" where
  "safe_get_from attempt_number cb env sleeps =
     (case safe_get_attempt cb (env attempt_number) of
        (Inr resp, cb') \<Rightarrow> (Inr resp, cb', sleeps)
      | (Inl e, cb') \<Rightarrow>
          if safe_get_stop attempt_number then (Inl (RetryError e), cb', sleeps)
          else safe_get_from (attempt_number + 1) cb' env
                 (sleeps @ [safe_get_wait attempt_number]))"
  by pat_completeness auto
termination
  by (relation "measure (\<lambda>(n, cb, env, sleeps). 3 - n)") (auto simp: safe_get_stop_def stop_after_attempt_def)

definition safe_get ::
    "CircuitBreaker \<Rightarrow> (nat \<Rightarrow> 'a attempt_env) \<Rightarrow>
     (py_exception + 'a response) \<times> CircuitBreaker \<times> real list" where
  "safe_get cb env = safe_get_from 1 cb env []"

definition search ::
    "string \<Rightarrow> 'p \<Rightarrow> CircuitBreaker \<Rightarrow> (string \<Rightarrow> 'p \<Rightarrow> nat \<Rightarrow> 'a attempt_env) \<Rightarrow>
     (py_exception + 'a) \<times> CircuitBreaker \<times> real list" where
  "search path params cb server =
     (case safe_get cb (server path params) of
        (Inl e, cb', sleeps) \<Rightarrow> (Inl e, cb', sleeps)
      | (Inr resp, cb', sleeps) \<Rightarrow> (json resp, cb', sleeps))"

definition search_collections where
  "search_collections params cb server = search ''/search/collections.umm_json'' params cb server"

definition search_granules where
  "search_granules params cb server = search ''/search/granules.umm_json'' params cb server"

definition search_variables where
  "search_variables params cb server = search ''/search/variables.umm_json'' params cb server"

text \<open>A server that refuses every connection, with the clock at 100 + n seconds at attempt n.\<close>

definition refused_env :: "nat \<Rightarrow> unit attempt_env" where
  "refused_env n = \<lparr> t_allow = 100 + real n, outcome = Raises (TransportError ''connection refused''),
                     t_failure = 100 + real n \<rparr>"


subsection \<open>Facts about the client\<close>

lemma wait_schedule:
  "safe_get_wait 1 = 1/2"
  "safe_get_wait 2 = 1"
  by (simp_all add: safe_get_wait_def wait_exponential_def)

lemma wait_doubles_capped:
  "1 \<le> n \<Longrightarrow> safe_get_wait (n + 1) = min 3 (2 * safe_get_wait n)"
proof -
  assume "1 \<le> n"
  then obtain k where n: "n = Suc k"
    by (cases n) auto
  define p where "p = (2::real) ^ k"
  have p: "1 \<le> p"
    by (simp add: p_def)
  have a: "safe_get_wait n = max (max 0 (1/2)) (min (1/2 * p) 3)"
    by (simp add: n safe_get_wait_def wait_exponential_def p_def)
  have b: "safe_get_wait (n + 1) = max (max 0 (1/2)) (min (1/2 * (2 * p)) 3)"
    by (simp add: n safe_get_wait_def wait_exponential_def p_def)
  show ?thesis
    unfolding a b using p by (simp add: min_def max_def)
qed

lemma stop_schedule: "\<not> safe_get_stop 1" "\<not> safe_get_stop 2" "safe_get_stop 3"
  by (simp_all add: safe_get_stop_def stop_after_attempt_def)

lemma safe_get_unfold:
  "safe_get cb env =
     (case safe_get_attempt cb (env 1) of
        (Inr resp, cb1) \<Rightarrow> (Inr resp, cb1, [])
      | (Inl e1, cb1) \<Rightarrow>
          (case safe_get_attempt cb1 (env 2) of
             (Inr resp, cb2) \<Rightarrow> (Inr resp, cb2, [1/2])
           | (Inl e2, cb2) \<Rightarrow>
               (case safe_get_attempt cb2 (env 3) of
                  (Inr resp, cb3) \<Rightarrow> (Inr resp, cb3, [1/2, 1])
                | (Inl e3, cb3) \<Rightarrow> (Inl (RetryError e3), cb3, [1/2, 1]))))"
proof -
  have three: "safe_get_from 3 c env sl =
      (case safe_get_attempt c (env 3) of
         (Inr resp, cb3) \<Rightarrow> (Inr resp, cb3, sl)
       | (Inl e3, cb3) \<Rightarrow> (Inl (RetryError e3), cb3, sl))" for c sl
    by (subst safe_get_from.simps)
      (simp only: stop_schedule if_True split: prod.splits sum.splits)
  have two: "safe_get_from 2 c env sl =
      (case safe_get_attempt c (env 2) of
         (Inr resp, cb2) \<Rightarrow> (Inr resp, cb2, sl)
       | (Inl e2, cb2) \<Rightarrow> safe_get_from 3 cb2 env (sl @ [1]))" for c sl
  proof -
    have "(2::nat) + 1 = 3" by simp
    then show ?thesis
      by (subst safe_get_from.simps)
        (simp only: stop_schedule if_False wait_schedule split: prod.splits sum.splits)
  qed
  have one: "safe_get_from 1 c env sl =
      (case safe_get_attempt c (env 1) of
         (Inr resp, cb1) \<Rightarrow> (Inr resp, cb1, sl)
       | (Inl e1, cb1) \<Rightarrow> safe_get_from 2 cb1 env (sl @ [1/2]))" for c sl
  proof -
    have "(1::nat) + 1 = 2" by simp
    then show ?thesis
      by (subst safe_get_from.simps)
        (simp only: stop_schedule if_False wait_schedule split: prod.splits sum.splits)
  qed
  show ?thesis
    unfolding safe_get_def one two three append_Nil append_Cons
    by (simp only: split: prod.splits sum.splits) 
qed

lemma attempt_open:
  "\<not> fst (allow cb (t_allow e)) \<Longrightarrow> safe_get_attempt cb e = (Inl circuit_open_error, cb)"
  by (auto simp: safe_get_attempt_def allow_def split: if_splits)

lemma attempt_raises:
  "fst (allow cb (t_allow e)) \<Longrightarrow> outcome e = Raises x \<Longrightarrow>
     safe_get_attempt cb e = (Inl x, record_failure cb (t_failure e))"
  by (auto simp: safe_get_attempt_def allow_def split: if_splits)

lemma attempt_status:
  "fst (allow cb (t_allow e)) \<Longrightarrow> outcome e = Responds resp \<Longrightarrow> \<not> is_success resp \<Longrightarrow>
     safe_get_attempt cb e =
       (Inl (HTTPStatusError (status_code resp)), record_failure cb (t_failure e))"
  by (auto simp: safe_get_attempt_def allow_def raise_for_status_def split: if_splits)

lemma attempt_success:
  "fst (allow cb (t_allow e)) \<Longrightarrow> outcome e = Responds resp \<Longrightarrow> is_success resp \<Longrightarrow>
     safe_get_attempt cb e = (Inr resp, record_success cb)"
  by (auto simp: safe_get_attempt_def allow_def raise_for_status_def split: if_splits)

text \<open>
  C2. One attempt of \<^verbatim>\<open>_safe_get\<close>: when the breaker disallows, it fails with the
  circuit-open \<^verbatim>\<open>RuntimeError\<close> and leaves the breaker as it was; when the request
  raises or the status is not 2xx, the breaker records one failure (its count grows by
  one) and that error is raised; when the status is 2xx, the breaker records one
  success and the response is returned, whose decoded JSON body the search operation
  returns. The call makes at most three attempts, stops at the first that returns,
  sleeps 0.5 s after the first failure and 1 s after the second (the wait starts at
  0.5 s, doubles, and is capped at 3 s), and after a third failure ends with
  \<^verbatim>\<open>RetryError\<close>; a rejection by the breaker is a failed attempt like any other, so
  three rejections end in \<^verbatim>\<open>RetryError\<close> with the breaker unchanged. The three search
  operations are this call on their three paths.
\<close>

theorem safe_get_contract:
  "(\<not> fst (allow cb (t_allow e)) \<longrightarrow>
      safe_get_attempt cb e = (Inl circuit_open_error, cb)) \<and>
   (fst (allow cb (t_allow e)) \<and> outcome e = Raises x \<longrightarrow>
      safe_get_attempt cb e = (Inl x, record_failure cb (t_failure e))) \<and>
   (fst (allow cb (t_allow e)) \<and> outcome e = Responds resp \<and> \<not> is_success resp \<longrightarrow>
      safe_get_attempt cb e =
        (Inl (HTTPStatusError (status_code resp)), record_failure cb (t_failure e))) \<and>
   failures (record_failure cb (t_failure e)) = failures cb + 1 \<and>
   (fst (allow cb (t_allow e)) \<and> outcome e = Responds resp \<and> is_success resp \<longrightarrow>
      safe_get_attempt cb e = (Inr resp, record_success cb)) \<and>
   safe_get cb env =
     (case safe_get_attempt cb (env 1) of
        (Inr r, cb1) \<Rightarrow> (Inr r, cb1, [])
      | (Inl e1, cb1) \<Rightarrow>
          (case safe_get_attempt cb1 (env 2) of
             (Inr r, cb2) \<Rightarrow> (Inr r, cb2, [1/2])
           | (Inl e2, cb2) \<Rightarrow>
               (case safe_get_attempt cb2 (env 3) of
                  (Inr r, cb3) \<Rightarrow> (Inr r, cb3, [1/2, 1])
                | (Inl e3, cb3) \<Rightarrow> (Inl (RetryError e3), cb3, [1/2, 1])))) \<and>
   ((\<forall>n \<in> {1, 2, 3}. \<not> fst (allow cb (t_allow (env n)))) \<longrightarrow>
      safe_get cb env = (Inl (RetryError circuit_open_error), cb, [1/2, 1])) \<and>
   search path params cb server =
     (case safe_get cb (server path params) of
        (Inl err, cb', sleeps) \<Rightarrow> (Inl err, cb', sleeps)
      | (Inr r, cb', sleeps) \<Rightarrow> (json r, cb', sleeps)) \<and>
   search_collections params cb server = search ''/search/collections.umm_json'' params cb server \<and>
   search_granules params cb server = search ''/search/granules.umm_json'' params cb server \<and>
   search_variables params cb server = search ''/search/variables.umm_json'' params cb server \<and>
   safe_get_wait 1 = 1/2 \<and>
   (\<forall>n \<ge> 1. safe_get_wait (n + 1) = min 3 (2 * safe_get_wait n))"
proof -
  have all_open: "safe_get cb env = (Inl (RetryError circuit_open_error), cb, [1/2, 1])"
    if "\<forall>n \<in> {1, 2, 3}. \<not> fst (allow cb (t_allow (env n)))"
  proof -
    from that have "safe_get_attempt cb (env 1) = (Inl circuit_open_error, cb)"
      "safe_get_attempt cb (env 2) = (Inl circuit_open_error, cb)"
      "safe_get_attempt cb (env 3) = (Inl circuit_open_error, cb)"
      by (simp_all only: attempt_open insertI1 insertI2 ball_simps insert_iff simp_thms)
    then show ?thesis
      unfolding safe_get_unfold by simp
  qed
  have srch: "search path params cb server =
     (case safe_get cb (server path params) of
        (Inl err, cb', sleeps) \<Rightarrow> (Inl err, cb', sleeps)
      | (Inr r, cb', sleeps) \<Rightarrow> (json r, cb', sleeps))"
    by (simp add: search_def)
  show ?thesis
    apply (intro conjI impI allI)
    subgoal by (rule attempt_open)
    subgoal by (rule attempt_raises) blast+
    subgoal by (rule attempt_status) blast+
    subgoal by (rule record_failure_count)
    subgoal by (rule attempt_success) blast+
    subgoal by (rule safe_get_unfold)
    subgoal by (rule all_open)
    subgoal by (rule srch)
    subgoal by (rule search_collections_def)
    subgoal by (rule search_granules_def)
    subgoal by (rule search_variables_def)
    subgoal by (rule wait_schedule)
    subgoal by (rule wait_doubles_capped)
    done
qed


theorem safe_get_contract_witness:
  "safe_get_attempt (CircuitBreaker_init 1 30) (refused_env 1) =
     (Inl (TransportError ''connection refused''), record_failure (CircuitBreaker_init 1 30) 101) \<and>
   safe_get_attempt (record_failure (CircuitBreaker_init 1 30) 101) (refused_env 2) =
     (Inl circuit_open_error, record_failure (CircuitBreaker_init 1 30) 101) \<and>
   safe_get_attempt CircuitBreaker_default
       \<lparr> t_allow = 5, outcome = Responds \<lparr> status_code = 503, json = Inr () \<rparr>, t_failure = 6 \<rparr> =
     (Inl (HTTPStatusError 503), record_failure CircuitBreaker_default 6) \<and>
   safe_get_attempt CircuitBreaker_default
       \<lparr> t_allow = 5, outcome = Responds \<lparr> status_code = 200, json = Inr () \<rparr>, t_failure = 6 \<rparr> =
     (Inr \<lparr> status_code = 200, json = Inr () \<rparr>, record_success CircuitBreaker_default) \<and>
   safe_get (record_failure (CircuitBreaker_init 1 30) 101) refused_env =
     (Inl (RetryError circuit_open_error), record_failure (CircuitBreaker_init 1 30) 101, [1/2, 1])"
proof -
  let ?cb = "CircuitBreaker_init 1 30"
  let ?cb1 = "record_failure ?cb 101"
  let ?r503 = "\<lparr> status_code = 503, json = Inr () \<rparr>"
  let ?r200 = "\<lparr> status_code = 200, json = Inr () \<rparr>"
  let ?e503 = "\<lparr> t_allow = 5, outcome = Responds ?r503, t_failure = 6 \<rparr>"
  let ?e200 = "\<lparr> t_allow = 5, outcome = Responds ?r200, t_failure = 6 \<rparr>"
  have tf: "t_failure (refused_env 1) = 101"
    by (simp add: refused_env_def)
  have h1: "fst (allow ?cb (t_allow (refused_env 1))) \<and>
      outcome (refused_env 1) = Raises (TransportError ''connection refused'')"
    by (simp add: allow_def CircuitBreaker_init_def refused_env_def)
  have w1: "open_until ?cb1 = 131"
    by (simp add: record_failure_def CircuitBreaker_init_def Let_def)
  have h2: "\<forall>n \<in> {1, 2, 3}. \<not> fst (allow ?cb1 (t_allow (refused_env n)))"
    by (simp add: allow_fst w1 refused_env_def)
  then have h2': "\<not> fst (allow ?cb1 (t_allow (refused_env 2)))"
    by simp
  have h3: "fst (allow CircuitBreaker_default (t_allow ?e503)) \<and> outcome ?e503 = Responds ?r503 \<and>
      \<not> is_success ?r503"
    by (simp add: allow_def CircuitBreaker_default_def CircuitBreaker_init_def is_success_def)
  have h4: "fst (allow CircuitBreaker_default (t_allow ?e200)) \<and> outcome ?e200 = Responds ?r200 \<and>
      is_success ?r200"
    by (simp add: allow_def CircuitBreaker_default_def CircuitBreaker_init_def is_success_def)
  have a: "safe_get_attempt ?cb (refused_env 1) =
      (Inl (TransportError ''connection refused''), record_failure ?cb (t_failure (refused_env 1)))"
    by (rule safe_get_contract [of ?cb "refused_env 1" "TransportError ''connection refused''",
          THEN conjunct2, THEN conjunct1, THEN mp, OF h1])
  have b: "safe_get_attempt ?cb1 (refused_env 2) = (Inl circuit_open_error, ?cb1)"
    by (rule safe_get_contract [of ?cb1 "refused_env 2", THEN conjunct1, THEN mp, OF h2'])
  have c: "safe_get_attempt CircuitBreaker_default ?e503 =
      (Inl (HTTPStatusError (status_code ?r503)), record_failure CircuitBreaker_default (t_failure ?e503))"
    by (rule safe_get_contract [of CircuitBreaker_default ?e503 _ ?r503,
          THEN conjunct2, THEN conjunct2, THEN conjunct1, THEN mp, OF h3])
  have d: "safe_get_attempt CircuitBreaker_default ?e200 = (Inr ?r200, record_success CircuitBreaker_default)"
    by (rule safe_get_contract [of CircuitBreaker_default ?e200 _ ?r200,
          THEN conjunct2, THEN conjunct2, THEN conjunct2, THEN conjunct2, THEN conjunct1, THEN mp, OF h4])
  have e: "safe_get ?cb1 refused_env = (Inl (RetryError circuit_open_error), ?cb1, [1/2, 1])"
    by (rule safe_get_contract [of ?cb1 _ _ _ refused_env,
          THEN conjunct2, THEN conjunct2, THEN conjunct2, THEN conjunct2, THEN conjunct2, THEN conjunct2, THEN conjunct1, THEN mp, OF h2])
  show ?thesis
    using a b c d e unfolding tf by simp
qed

section \<open>Python strings\<close>

text \<open>
  A Python \<^verbatim>\<open>str\<close> is a sequence of code points. The model is \<^typ>\<open>string\<close>, whose
  characters have the code points 0 to 255; on these the predicates below are the ones
  Python 3 computes: \<^verbatim>\<open>str.isspace\<close> (the separators of \<^verbatim>\<open>split()\<close> and
  \<^verbatim>\<open>strip()\<close>), \<^verbatim>\<open>str.isdigit\<close> (which also accepts the superscripts 178, 179 and
  185), the classes \<^verbatim>\<open>\d\<close> and \<^verbatim>\<open>\w\<close> of the \<^verbatim>\<open>re\<close> module, and
  \<^verbatim>\<open>str.lower\<close>. Text with code points above 255 is outside the model.
\<close>

definition cp :: "char \<Rightarrow> nat" where
  "cp c = of_char c"

definition py_isspace :: "char \<Rightarrow> bool" where
  "py_isspace c = (let n = cp c in (9 \<le> n \<and> n \<le> 13) \<or> (28 \<le> n \<and> n \<le> 32) \<or> n = 133 \<or> n = 160)"

definition re_digit :: "char \<Rightarrow> bool" where
  "re_digit c = (let n = cp c in 48 \<le> n \<and> n \<le> 57)"

definition py_isdigit_char :: "char \<Rightarrow> bool" where
  "py_isdigit_char c = (let n = cp c in (48 \<le> n \<and> n \<le> 57) \<or> n = 178 \<or> n = 179 \<or> n = 185)"

definition re_word :: "char \<Rightarrow> bool" where
  "re_word c = (let n = cp c in
      (48 \<le> n \<and> n \<le> 57) \<or> (65 \<le> n \<and> n \<le> 90) \<or> n = 95 \<or> (97 \<le> n \<and> n \<le> 122) \<or>
      n = 170 \<or> n = 178 \<or> n = 179 \<or> n = 181 \<or> n = 185 \<or> n = 186 \<or>
      (188 \<le> n \<and> n \<le> 190) \<or> (192 \<le> n \<and> n \<le> 214) \<or> (216 \<le> n \<and> n \<le> 246) \<or>
      (248 \<le> n \<and> n \<le> 255))"

definition py_lower_char :: "char \<Rightarrow> char" where
  "py_lower_char c = (let n = cp c in
      if (65 \<le> n \<and> n \<le> 90) \<or> (192 \<le> n \<and> n \<le> 214) \<or> (216 \<le> n \<and> n \<le> 222)
      then char_of (n + 32) else c)"

definition py_lower :: "string \<Rightarrow> string" where
  "py_lower s = map py_lower_char s"

definition py_strip :: "string \<Rightarrow> string" where
  "py_strip s = rev (dropWhile py_isspace (rev (dropWhile py_isspace s)))"

fun split_ws :: "string \<Rightarrow> string \<Rightarrow> string list" where
  "split_ws cur [] = (if cur = [] then [] else [cur])"
| "split_ws cur (c # cs) =
     (if py_isspace c then (if cur = [] then split_ws [] cs else cur # split_ws [] cs)
      else split_ws (cur @ [c]) cs)"

definition py_split :: "string \<Rightarrow> string list" where
  "py_split s = split_ws [] s"

definition py_replace_char :: "char \<Rightarrow> string \<Rightarrow> string \<Rightarrow> string" where
  "py_replace_char old new s = concat (map (\<lambda>c. if c = old then new else [c]) s)"

definition py_isdigit :: "string \<Rightarrow> bool" where
  "py_isdigit s = (s \<noteq> [] \<and> list_all py_isdigit_char s)"

definition py_in :: "string \<Rightarrow> string \<Rightarrow> bool" where
  "py_in needle hay = sublist needle hay"


section \<open>Constraint inference (cmr\_agent/utils.py)\<close>

text \<open>
  \<^verbatim>\<open>re.findall(r"((?:19|20)\d{2})", text)\<close> scans from the left: where the four
  characters at the current position match, they are one result and the scan goes on
  behind them; otherwise it moves one character on. \<^verbatim>\<open>int\<close> reads a match as a
  decimal number, and \<^verbatim>\<open>strftime('%Y')\<close> prints the year of a date, four digits for
  the years 1000 to 9999, which include every year the scan can return.
\<close>

definition year_at :: "char \<Rightarrow> char \<Rightarrow> char \<Rightarrow> char \<Rightarrow> bool" where
  "year_at a b c d =
     (((a = CHR ''1'' \<and> b = CHR ''9'') \<or> (a = CHR ''2'' \<and> b = CHR ''0'')) \<and> re_digit c \<and> re_digit d)"

fun findall_years :: "string \<Rightarrow> string list" where
  "findall_years (a # b # c # d # rest) =
     (if year_at a b c d then [a, b, c, d] # findall_years rest
      else findall_years (b # c # d # rest))"
| "findall_years _ = []"

definition digit_val :: "char \<Rightarrow> int" where
  "digit_val c = int (cp c) - 48"

definition py_int :: "string \<Rightarrow> int" where
  "py_int s = foldl (\<lambda>acc c. 10 * acc + digit_val c) 0 s"

definition digit_char :: "int \<Rightarrow> char" where
  "digit_char d = char_of (48 + nat d)"

definition strftime_Y :: "int \<Rightarrow> string" where
  "strftime_Y y = map digit_char [y div 1000 mod 10, y div 100 mod 10, y div 10 mod 10, y mod 10]"

definition infer_temporal :: "string \<Rightarrow> string option \<times> string option" where
  "infer_temporal text =
     (let years = map py_int (findall_years text) in
      if length years \<ge> 2 then
        (let years = sort years;
             start = strftime_Y (hd years) @ ''-01-01T00:00:00Z'';
             end = strftime_Y (last years) @ ''-12-31T23:59:59Z''
         in (Some start, Some end))
      else (None, None))"

text \<open>The gazetteer, in the order of the dictionary literal; the first key found wins.\<close>

type_synonym bbox = "real \<times> real \<times> real \<times> real"

definition REGION_TO_BBOX :: "(string \<times> bbox) list" where
  "REGION_TO_BBOX =
     [(''sub-saharan africa'', (-20, -35, 52, 20)),
      (''subsaharan africa'', (-20, -35, 52, 20)),
      (''sub saharan africa'', (-20, -35, 52, 20)),
      (''ssa'', (-20, -35, 52, 20)),
      (''global'', (-180, -90, 180, 90))]"

fun first_region :: "(string \<times> bbox) list \<Rightarrow> string \<Rightarrow> bbox option" where
  "first_region [] lowered = None"
| "first_region ((key, box) # rest) lowered =
     (if py_in key lowered then Some box else first_region rest lowered)"

definition infer_bbox :: "string \<Rightarrow> bbox option" where
  "infer_bbox text = (let lowered = py_lower text in first_region REGION_TO_BBOX lowered)"


text \<open>
  For comparison with the specification's wording "distinct 4-digit years present in
  the text": every window of four consecutive characters that has the form 19xx or 20xx,
  and the number of different ones.
\<close>

fun year_windows :: "string \<Rightarrow> string list" where
  "year_windows (a # b # c # d # rest) =
     (if year_at a b c d then [[a, b, c, d]] else []) @ year_windows (b # c # d # rest)"
| "year_windows _ = []"

definition distinct_years_present :: "string \<Rightarrow> nat" where
  "distinct_years_present text = card (set (year_windows text))"

subsection \<open>Facts about constraint inference\<close>

lemma hd_sort_Min: "xs \<noteq> [] \<Longrightarrow> hd (sort xs) = Min (set xs)"
proof -
  assume ne: "xs \<noteq> []"
  then obtain y ys where s: "sort xs = y # ys"
    by (cases "sort xs") (auto dest: arg_cong [where f = length])
  have "sorted (sort xs)" and "set (sort xs) = set xs"
    by simp_all
  then have srt: "sorted (y # ys)" and st: "set (y # ys) = set xs"
    unfolding s by blast+
  have "\<forall>z \<in> set xs. y \<le> z"
    using srt st by auto
  moreover have "y \<in> set xs"
    using st by auto
  ultimately have "Min (set xs) = y"
    by (intro Min_eqI) auto
  then show ?thesis
    by (simp add: s)
qed

lemma last_sort_Max: "xs \<noteq> [] \<Longrightarrow> last (sort xs) = Max (set xs)"
proof -
  assume ne: "xs \<noteq> []"
  then have ne': "sort xs \<noteq> []"
    by (auto dest: arg_cong [where f = length])
  then obtain ys y where s: "sort xs = ys @ [y]"
    by (metis rev_exhaust)
  have "sorted (sort xs)" and "set (sort xs) = set xs"
    by simp_all
  then have srt: "sorted (ys @ [y])" and st: "set (ys @ [y]) = set xs"
    unfolding s by blast+
  have "\<forall>z \<in> set xs. z \<le> y"
    using srt st by (auto simp: sorted_append)
  moreover have "y \<in> set xs"
    using st by auto
  ultimately have "Max (set xs) = y"
    by (intro Max_eqI) auto
  then show ?thesis
    by (simp add: s)
qed

text \<open>
  C3 (as amended). \<^verbatim>\<open>infer_temporal\<close> returns the null pair exactly when the scan
  finds fewer than two matches, a year that occurs twice counting twice; otherwise it
  returns the first day of the least year found and the last second of the greatest.
\<close>

theorem infer_temporal_scan:
  "infer_temporal text =
     (let ys = map py_int (findall_years text) in
      if length ys < 2 then (None, None)
      else (Some (strftime_Y (Min (set ys)) @ ''-01-01T00:00:00Z''),
            Some (strftime_Y (Max (set ys)) @ ''-12-31T23:59:59Z'')))"
proof (cases "length (findall_years text) < 2")
  case True
  then show ?thesis
    by (simp add: infer_temporal_def Let_def)
next
  case False
  then have ne: "map py_int (findall_years text) \<noteq> []"
    by auto
  show ?thesis
    using False by (simp add: infer_temporal_def Let_def hd_sort_Min [OF ne] last_sort_Max [OF ne] not_less)
qed

theorem infer_temporal_scan_witness:
  "infer_temporal ''rainfall 2010-2012 over sub-saharan africa'' =
     (Some ''2010-01-01T00:00:00Z'', Some ''2012-12-31T23:59:59Z'') \<and>
   infer_temporal ''rainfall in 2015 over africa'' = (None, None)"
  using infer_temporal_scan [of "''rainfall 2010-2012 over sub-saharan africa''"]
    infer_temporal_scan [of "''rainfall in 2015 over africa''"]
  by code_simp

text \<open>
  C3 as stated fails: the text \<^verbatim>\<open>2010 2010\<close> holds one distinct year, fewer than two,
  and the result is not the null pair.
\<close>

theorem infer_temporal_distinct_counterexample:
  "\<not> (infer_temporal ''2010 2010'' = (None, None) \<longleftrightarrow> distinct_years_present ''2010 2010'' < 2)"
  by code_simp


section \<open>Validation (cmr\_agent/agents/validation\_agent.py)\<close>

text \<open>
  The validation agent scans with \<^verbatim>\<open>\b(?:19|20)\d{2}\b\<close>. A year starts and ends
  with a word character, so the leading \<^verbatim>\<open>\b\<close> holds when the match is at the start
  of the text or follows a character that is not a word character, and the trailing one
  when it is at the end or a character that is not a word character follows. The scan
  carries whether the previous character is a word character.
\<close>

fun findall_years_b :: "bool \<Rightarrow> string \<Rightarrow> string list" where
  "findall_years_b prev_word (a # b # c # d # rest) =
     (if \<not> prev_word \<and> year_at a b c d \<and> (case rest of [] \<Rightarrow> True | e # _ \<Rightarrow> \<not> re_word e)
      then [a, b, c, d] # findall_years_b True rest
      else findall_years_b (re_word a) (b # c # d # rest))"
| "findall_years_b prev_word _ = []"

definition REGIONS :: "(string \<times> real list) list" where
  "REGIONS =
     [(''sub-saharan africa'', [-20, -35, 52, 20]),
      (''subsaharan africa'', [-20, -35, 52, 20]),
      (''sub saharan africa'', [-20, -35, 52, 20]),
      (''ssa'', [-20, -35, 52, 20]),
      (''global'', [-180, -90, 180, 90])]"

definition banned :: "string list" where
  "banned = [''medical records'', ''social security'', ''bank account'']"

text \<open>
  \<^verbatim>\<open>ValidationAgent.run\<close> assigns to \<^verbatim>\<open>feasible\<close> and appends to \<^verbatim>\<open>reasons\<close>
  check by check; the bindings below follow the statements of the method in order.
\<close>

record validation =
  feasible :: bool
  reasons :: "string list"
  suggested_alternatives :: "string list"

definition ValidationAgent_run :: "string \<Rightarrow> string list \<Rightarrow> validation" where
  "ValidationAgent_run query subqueries =
     (let reasons = [];
          feasible = True;
          (feasible, reasons) =
            (if query = [] \<or> py_strip query = []
             then (False, reasons @ [''Empty query'']) else (feasible, reasons));
          reasons =
            (if length query < 8
             then reasons @ [''Very short query; may be ambiguous''] else reasons);
          lowered = py_lower query;
          (feasible, reasons) =
            (if list_ex (\<lambda>b. py_in b lowered) banned
             then (False, reasons @ [''Out-of-scope content detected''])
             else (feasible, reasons));
          years = map py_int (findall_years_b False query);
          (feasible, reasons) =
            (if years = [] then (feasible, reasons @ [''No temporal bounds detected''])
             else if length years \<ge> 2 \<and> hd years > last years
             then (False, reasons @ [''Start year after end year''])
             else (feasible, reasons));
          has_region =
            (list_ex (\<lambda>r. py_in r lowered) (map fst REGIONS) \<or> infer_bbox query \<noteq> None);
          (feasible, reasons) =
            (if \<not> has_region then (False, reasons @ [''Region not recognized''])
             else (feasible, reasons));
          reasons =
            (if length subqueries > 5
             then reasons @ [''High complexity; will decompose into steps''] else reasons);
          alternatives =
            (if ''Region not recognized'' \<in> set reasons then [] @ map fst REGIONS else [])
      in \<lparr> feasible = feasible, reasons = reasons, suggested_alternatives = alternatives \<rparr>)"

subsection \<open>Facts about validation\<close>

text \<open>The two gazetteers have the same keys, so the bounding box adds no region.\<close>

lemma infer_bbox_gazetteer:
  "(infer_bbox query \<noteq> None) = list_ex (\<lambda>r. py_in r (py_lower query)) (map fst REGIONS)"
  by (simp add: infer_bbox_def REGION_TO_BBOX_def REGIONS_def Let_def)

lemma blank_iff: "(query = [] \<or> py_strip query = []) = (py_strip query = [])"
  by (auto simp: py_strip_def)

lemma if_pair_append:
  "(if c then (False, r @ x) else (b, r)) = (\<not> c \<and> b, r @ (if c then x else []))"
  by simp

lemma if_pair_append2:
  "(if c then (a, r @ x) else (b, r @ y)) = (if c then a else b, r @ (if c then x else y))"
  by simp

lemma if_append: "(if c then r @ x else r) = r @ (if c then x else [])"
  by simp

lemma validation_run_eq:
  "ValidationAgent_run query subqueries =
     \<lparr> feasible =
         (py_strip query \<noteq> [] \<and>
          \<not> list_ex (\<lambda>b. py_in b (py_lower query)) banned \<and>
          \<not> (length (map py_int (findall_years_b False query)) \<ge> 2 \<and>
             hd (map py_int (findall_years_b False query)) > last (map py_int (findall_years_b False query))) \<and>
          (list_ex (\<lambda>r. py_in r (py_lower query)) (map fst REGIONS) \<or> infer_bbox query \<noteq> None)),
       reasons = ((if py_strip query = [] then [''Empty query''] else []) @
     (if length query < 8 then [''Very short query; may be ambiguous''] else []) @
     (if list_ex (\<lambda>b. py_in b (py_lower query)) banned
      then [''Out-of-scope content detected''] else []) @
     (if map py_int (findall_years_b False query) = [] then [''No temporal bounds detected'']
      else if length (map py_int (findall_years_b False query)) \<ge> 2 \<and>
              hd (map py_int (findall_years_b False query)) > last (map py_int (findall_years_b False query))
      then [''Start year after end year''] else []) @
     (if list_ex (\<lambda>r. py_in r (py_lower query)) (map fst REGIONS) \<or> infer_bbox query \<noteq> None
      then [] else [''Region not recognized'']) @
     (if length subqueries > 5 then [''High complexity; will decompose into steps''] else [])),
       suggested_alternatives =
         (if ''Region not recognized'' \<in> set ((if py_strip query = [] then [''Empty query''] else []) @
     (if length query < 8 then [''Very short query; may be ambiguous''] else []) @
     (if list_ex (\<lambda>b. py_in b (py_lower query)) banned
      then [''Out-of-scope content detected''] else []) @
     (if map py_int (findall_years_b False query) = [] then [''No temporal bounds detected'']
      else if length (map py_int (findall_years_b False query)) \<ge> 2 \<and>
              hd (map py_int (findall_years_b False query)) > last (map py_int (findall_years_b False query))
      then [''Start year after end year''] else []) @
     (if list_ex (\<lambda>r. py_in r (py_lower query)) (map fst REGIONS) \<or> infer_bbox query \<noteq> None
      then [] else [''Region not recognized'']) @
     (if length subqueries > 5 then [''High complexity; will decompose into steps''] else []))
          then map fst REGIONS else []) \<rparr>"
  unfolding ValidationAgent_run_def blank_iff
  unfolding if_pair_append if_append
  unfolding if_pair_append2
  apply (simp only: Let_def case_prod_conv append_Nil append_assoc)
  apply (rule validation.equality)
  apply (simp_all only: validation.simps simp_thms)
  apply auto
  done

lemma region_reason_member:
  "(''Region not recognized'' \<in> set (
     (if c1 then [''Empty query''] else []) @
     (if c2 then [''Very short query; may be ambiguous''] else []) @
     (if c3 then [''Out-of-scope content detected''] else []) @
     (if c4 then [''No temporal bounds detected'']
         else if c5 then [''Start year after end year''] else []) @
     (if c6 then [] else [''Region not recognized'']) @
     (if c7 then [''High complexity; will decompose into steps''] else []))) = (\<not> c6)"
  by simp

lemma if_not_swap: "(if \<not> c then a else b) = (if c then b else a)"
  by simp

text \<open>
  C7. \<^verbatim>\<open>feasible\<close> is the conjunction of the four fatal checks: the query is not
  blank, no banned phrase occurs in it, it is not the case that two or more years are
  found with the first greater than the last, and a region name is found or a bounding
  box can be inferred. \<^verbatim>\<open>reasons\<close> lists, in the order of the checks, the reason of
  every check that triggered, fatal or not, and nothing else.
  \<^verbatim>\<open>suggested_alternatives\<close> is the full list of region names when the region check
  fails and empty otherwise.
\<close>

theorem validation_contract:
  "feasible (ValidationAgent_run query subqueries) =
     (py_strip query \<noteq> [] \<and>
      \<not> list_ex (\<lambda>b. py_in b (py_lower query))
          [''medical records'', ''social security'', ''bank account''] \<and>
      \<not> (let years = map py_int (findall_years_b False query)
         in length years \<ge> 2 \<and> hd years > last years) \<and>
      (list_ex (\<lambda>r. py_in r (py_lower query)) (map fst REGIONS) \<or> infer_bbox query \<noteq> None)) \<and>
   reasons (ValidationAgent_run query subqueries) =
     (if py_strip query = [] then [''Empty query''] else []) @
     (if length query < 8 then [''Very short query; may be ambiguous''] else []) @
     (if list_ex (\<lambda>b. py_in b (py_lower query))
          [''medical records'', ''social security'', ''bank account'']
      then [''Out-of-scope content detected''] else []) @
     (let years = map py_int (findall_years_b False query)
      in if years = [] then [''No temporal bounds detected'']
         else if length years \<ge> 2 \<and> hd years > last years
         then [''Start year after end year''] else []) @
     (if list_ex (\<lambda>r. py_in r (py_lower query)) (map fst REGIONS) \<or> infer_bbox query \<noteq> None
      then [] else [''Region not recognized'']) @
     (if length subqueries > 5 then [''High complexity; will decompose into steps''] else []) \<and>
   suggested_alternatives (ValidationAgent_run query subqueries) =
     (if list_ex (\<lambda>r. py_in r (py_lower query)) (map fst REGIONS) \<or> infer_bbox query \<noteq> None
      then []
      else [''sub-saharan africa'', ''subsaharan africa'', ''sub saharan africa'',
            ''ssa'', ''global''])"
proof -
  have keys: "map fst REGIONS =
      [''sub-saharan africa'', ''subsaharan africa'', ''sub saharan africa'', ''ssa'', ''global'']"
    by (simp add: REGIONS_def)
  show ?thesis
    unfolding validation_run_eq validation.simps region_reason_member Let_def if_not_swap
    unfolding banned_def [symmetric] keys [symmetric]
    by (rule conjI refl)+
qed

theorem validation_contract_witness:
  "feasible (ValidationAgent_run ''rainfall 2010-2012 over sub-saharan africa''
      [''rainfall 2010-2012 over sub-saharan africa'']) \<and>
   reasons (ValidationAgent_run ''rainfall 2010-2012 over sub-saharan africa''
      [''rainfall 2010-2012 over sub-saharan africa'']) = [] \<and>
   \<not> feasible (ValidationAgent_run ''ssa 2012 to 2010'' []) \<and>
   reasons (ValidationAgent_run ''ssa 2012 to 2010'' []) = [''Start year after end year''] \<and>
   reasons (ValidationAgent_run ''rain'' []) =
     [''Very short query; may be ambiguous'', ''No temporal bounds detected'',
      ''Region not recognized''] \<and>
   suggested_alternatives (ValidationAgent_run ''rain'' []) =
     [''sub-saharan africa'', ''subsaharan africa'', ''sub saharan africa'', ''ssa'', ''global'']"
  using validation_contract [of "''rainfall 2010-2012 over sub-saharan africa''"
      "[''rainfall 2010-2012 over sub-saharan africa'']"]
    validation_contract [of "''ssa 2012 to 2010''" "[]"]
    validation_contract [of "''rain''" "[]"]
  by code_simp

section \<open>Query planner (cmr\_agent/agents/planning\_agent.py)\<close>

text \<open>
  \<^verbatim>\<open>list(dict.fromkeys(xs))\<close> keeps the keys in the order of their first insertion.
  The language model is a parameter: \<open>None\<close> when the agent has no model, and
  \<open>Some reply\<close> when it has one, \<open>reply\<close> being the string elements of the JSON list
  the model answered with (empty when the call raised or the answer was not a list, in
  which cases the method appends nothing). The sets \<^verbatim>\<open>present\<close> of the source are
  carried along with the lists they mirror.
\<close>

definition dict_fromkeys :: "'a list \<Rightarrow> 'a list" where
  "dict_fromkeys xs = foldl (\<lambda>acc x. if x \<in> set acc then acc else acc @ [x]) [] xs"

definition add_if_absent :: "string list \<times> string set \<Rightarrow> string \<Rightarrow> string list \<times> string set" where
  "add_if_absent st s =
     (case st of (out, present) \<Rightarrow>
        if s \<notin> present then (out @ [s], insert s present) else (out, present))"

definition baseline_synonyms :: "string list \<Rightarrow> string list" where
  "baseline_synonyms terms =
     (let out = terms;
          present = set out;
          rain_like = {''rain'', ''rainfall''}
      in if present \<inter> rain_like \<noteq> {}
         then fst (foldl add_if_absent (out, present) [''precipitation'', ''imerg'', ''trmm''])
         else out)"

definition llm_append :: "string list \<Rightarrow> string \<Rightarrow> string list" where
  "llm_append expanded term =
     (let t = py_strip (py_lower term)
      in if t \<noteq> [] \<and> t \<notin> set expanded then expanded @ [t] else expanded)"

definition expand_terms :: "string list option \<Rightarrow> string list \<Rightarrow> string list" where
  "expand_terms llm seeds =
     (let expanded = [] @ map py_lower (filter (\<lambda>s. s \<noteq> []) seeds)
      in case llm of
           None \<Rightarrow> dict_fromkeys (baseline_synonyms expanded)
         | Some reply \<Rightarrow>
             if seeds = [] then dict_fromkeys (baseline_synonyms expanded)
             else (let expanded = foldl llm_append expanded reply;
                       expanded = baseline_synonyms expanded
                   in dict_fromkeys expanded))"

text \<open>
  \<^verbatim>\<open>PlanningAgent.run\<close>: the seed terms are the trimmed non-blank subqueries followed
  by the whitespace-separated words of the lowercased query with commas replaced by
  spaces. Each expanded term is trimmed and lowercased, and skipped when it is empty,
  when it is all digits once its hyphens are removed, when it is a stopword, or when it
  is in the list already.
\<close>

definition STOPWORDS :: "string set" where
  "STOPWORDS = {''over'', ''in'', ''the'', ''a'', ''an'', ''and'', ''or'', ''to'', ''of'',
                ''for'', ''on'', ''with''}"

definition seed_terms :: "string \<Rightarrow> string list \<Rightarrow> string list" where
  "seed_terms user_query subqueries =
     (let lowered = py_lower user_query;
          seeds = [];
          seeds = seeds @ map py_strip
                    (filter (\<lambda>s. s \<noteq> [] \<and> length (py_strip s) > 0) subqueries);
          seeds = seeds @ map py_strip
                    (filter (\<lambda>t. py_strip t \<noteq> [])
                       (py_split (py_replace_char CHR '','' '' '' lowered)))
      in seeds)"

definition variable_term_step :: "string list \<Rightarrow> string \<Rightarrow> string list" where
  "variable_term_step variable_terms term =
     (let t = py_lower (py_strip term)
      in if t = [] then variable_terms
         else if py_isdigit (py_replace_char CHR ''-'' [] t) then variable_terms
         else if t \<in> STOPWORDS then variable_terms
         else if t \<notin> set variable_terms then variable_terms @ [t]
         else variable_terms)"

definition fallback_synonyms :: "(string \<times> string list) list" where
  "fallback_synonyms =
     [(''rainfall'', [''precipitation'']),
      (''imerg'', [''precipitation'']),
      (''trmm'', [''precipitation''])]"

definition fallback_step ::
    "string list \<times> string set \<Rightarrow> string \<times> string list \<Rightarrow> string list \<times> string set" where
  "fallback_step st entry =
     (case entry of (base, syns) \<Rightarrow>
        if base \<in> snd st then foldl add_if_absent st syns else st)"

record criteria =
  c_query :: string
  c_expanded_terms :: "string list"
  c_variable_terms :: "string list"

record stage =
  name :: string
  type :: string
  stage_criteria :: criteria
  depends_on :: "string list"

record plan =
  parallel :: bool
  expanded_terms :: "string list"
  variable_terms :: "string list"
  stages :: "stage list"

definition PlanningAgent_run :: "string list option \<Rightarrow> string \<Rightarrow> string list \<Rightarrow> plan" where
  "PlanningAgent_run llm user_query subqueries =
     (let seeds = seed_terms user_query subqueries;
          expanded = expand_terms llm seeds;
          variable_terms = foldl variable_term_step [] expanded;
          present = set variable_terms;
          variable_terms = fst (foldl fallback_step (variable_terms, present) fallback_synonyms);
          criteria = \<lparr> c_query = user_query, c_expanded_terms = expanded,
                       c_variable_terms = variable_terms \<rparr>;
          stages =
            [\<lparr> name = ''collection_search'', type = ''collection_search'',
               stage_criteria = criteria, depends_on = [] \<rparr>,
             \<lparr> name = ''granule_search'', type = ''granule_search'',
               stage_criteria = criteria, depends_on = [''collection_search''] \<rparr>,
             \<lparr> name = ''variable_search'', type = ''variable_search'',
               stage_criteria = criteria, depends_on = [] \<rparr>]
      in \<lparr> parallel = True, expanded_terms = expanded, variable_terms = variable_terms,
           stages = stages \<rparr>)"

text \<open>
  Two notions of the specification, for comparison with the code. "Deduplicated,
  first-seen order preserved": the element at position \<open>i\<close> is kept exactly when it
  does not occur before position \<open>i\<close>. "A token that is entirely digits and hyphens":
  every character is a decimal digit or a hyphen.
\<close>

definition first_occurrences :: "'a list \<Rightarrow> 'a list" where
  "first_occurrences xs =
     map (\<lambda>i. xs ! i) (filter (\<lambda>i. xs ! i \<notin> set (take i xs)) [0..<length xs])"

definition digits_and_hyphens_only :: "string \<Rightarrow> bool" where
  "digits_and_hyphens_only t = list_all (\<lambda>c. re_digit c \<or> c = CHR ''-'') t"


subsection \<open>Facts about the planner\<close>

lemma first_occurrences_snoc:
  "first_occurrences (xs @ [x]) = first_occurrences xs @ (if x \<in> set xs then [] else [x])"
proof -
  have f: "filter (\<lambda>i. (xs @ [x]) ! i \<notin> set (take i (xs @ [x]))) [0..<length xs] =
           filter (\<lambda>i. xs ! i \<notin> set (take i xs)) [0..<length xs]"
    by (rule filter_cong) (auto simp: nth_append)
  have m: "map (\<lambda>i. (xs @ [x]) ! i) (filter (\<lambda>i. xs ! i \<notin> set (take i xs)) [0..<length xs]) =
           map (\<lambda>i. xs ! i) (filter (\<lambda>i. xs ! i \<notin> set (take i xs)) [0..<length xs])"
    by (rule map_cong) (auto simp: nth_append)
  have "first_occurrences (xs @ [x]) =
      map (\<lambda>i. (xs @ [x]) ! i)
        (filter (\<lambda>i. (xs @ [x]) ! i \<notin> set (take i (xs @ [x]))) ([0..<length xs] @ [length xs]))"
    by (simp add: first_occurrences_def del: take_append)
  also have "\<dots> = map (\<lambda>i. (xs @ [x]) ! i) (filter (\<lambda>i. xs ! i \<notin> set (take i xs)) [0..<length xs])
      @ (if x \<in> set xs then [] else [x])"
    unfolding filter_append map_append f by simp
  finally show ?thesis
    by (simp only: m first_occurrences_def)
qed

lemma dict_fromkeys_snoc:
  "dict_fromkeys (xs @ [x]) =
     (if x \<in> set (dict_fromkeys xs) then dict_fromkeys xs else dict_fromkeys xs @ [x])"
  by (simp add: dict_fromkeys_def)

lemma set_dict_fromkeys: "set (dict_fromkeys xs) = set xs"
  by (induction xs rule: rev_induct) (auto simp: dict_fromkeys_snoc, simp add: dict_fromkeys_def)

lemma dict_fromkeys_first_occurrences: "dict_fromkeys xs = first_occurrences xs"
proof (induction xs rule: rev_induct)
  case Nil
  show ?case by (simp add: dict_fromkeys_def first_occurrences_def)
next
  case (snoc x xs)
  have "set (first_occurrences xs) = set xs"
    using set_dict_fromkeys [of xs] snoc by simp
  then show ?case
    using snoc by (simp add: dict_fromkeys_snoc first_occurrences_snoc)
qed

lemma distinct_dict_fromkeys: "distinct (dict_fromkeys xs)"
  by (induction xs rule: rev_induct) (simp_all add: dict_fromkeys_snoc, simp add: dict_fromkeys_def)


lemma variable_term_loop:
  "foldl variable_term_step acc terms =
     foldl (\<lambda>acc x. if x \<in> set acc then acc else acc @ [x]) acc
       (filter (\<lambda>t. t \<noteq> [] \<and> \<not> py_isdigit (py_replace_char CHR ''-'' [] t) \<and> t \<notin> STOPWORDS)
          (map (\<lambda>term. py_lower (py_strip term)) terms))"
  by (induction terms arbitrary: acc) (simp_all add: variable_term_step_def Let_def)

lemma variable_term_loop_first:
  "foldl variable_term_step [] terms =
     first_occurrences
       (filter (\<lambda>t. t \<noteq> [] \<and> \<not> py_isdigit (py_replace_char CHR ''-'' [] t) \<and> t \<notin> STOPWORDS)
          (map (\<lambda>term. py_lower (py_strip term)) terms))"
  unfolding variable_term_loop dict_fromkeys_first_occurrences [symmetric] dict_fromkeys_def ..

lemma fallback_result:
  "fst (foldl fallback_step (vt, set vt) fallback_synonyms) =
     vt @ (if ''precipitation'' \<notin> set vt \<and>
              (''rainfall'' \<in> set vt \<or> ''imerg'' \<in> set vt \<or> ''trmm'' \<in> set vt)
           then [''precipitation''] else [])"
  by (simp add: fallback_synonyms_def fallback_step_def add_if_absent_def)


lemma set_first_occurrences: "set (first_occurrences xs) = set xs"
  using set_dict_fromkeys [of xs] by (simp add: dict_fromkeys_first_occurrences)

lemma distinct_first_occurrences: "distinct (first_occurrences xs)"
  using distinct_dict_fromkeys [of xs] by (simp add: dict_fromkeys_first_occurrences)

lemma baseline_superset: "set terms \<subseteq> set (baseline_synonyms terms)"
  by (auto simp: baseline_synonyms_def add_if_absent_def Let_def)

lemma baseline_rainfall:
  "''rainfall'' \<in> set terms \<Longrightarrow> ''precipitation'' \<in> set (baseline_synonyms terms)"
  by (auto simp: baseline_synonyms_def add_if_absent_def Let_def)

lemma llm_loop_superset: "set acc \<subseteq> set (foldl llm_append acc reply)"
proof (induction reply arbitrary: acc)
  case Nil
  show ?case by simp
next
  case (Cons t reply)
  have "set acc \<subseteq> set (llm_append acc t)"
    by (auto simp: llm_append_def Let_def)
  also have "\<dots> \<subseteq> set (foldl llm_append (llm_append acc t) reply)"
    by (rule Cons.IH)
  finally show ?case by simp
qed

lemma expand_terms_rainfall:
  assumes "''rainfall'' \<in> set (map py_lower seeds)"
  shows "''rainfall'' \<in> set (expand_terms llm seeds) \<and>
         ''precipitation'' \<in> set (expand_terms llm seeds)"
proof -
  from assms obtain s where s: "s \<in> set seeds" "py_lower s = ''rainfall''"
    by auto
  then have "s \<noteq> []"
    by (auto simp: py_lower_def)
  with s have base: "''rainfall'' \<in> set (map py_lower (filter (\<lambda>s. s \<noteq> []) seeds))"
    by force
  have ne: "seeds \<noteq> []"
    using s by auto
  have both: "''rainfall'' \<in> set (baseline_synonyms ts) \<and> ''precipitation'' \<in> set (baseline_synonyms ts)"
    if "''rainfall'' \<in> set ts" for ts
    using that baseline_superset [of ts] baseline_rainfall [of ts] by blast
  show ?thesis
  proof (cases llm)
    case None
    then show ?thesis
      using both [OF base] by (simp add: expand_terms_def set_dict_fromkeys)
  next
    case (Some reply)
    have "''rainfall'' \<in> set (foldl llm_append (map py_lower (filter (\<lambda>s. s \<noteq> []) seeds)) reply)"
      using base llm_loop_superset by blast
    from both [OF this] show ?thesis
      using Some ne by (simp add: expand_terms_def Let_def set_dict_fromkeys)
  qed
qed

lemma rainfall_kept:
  "py_lower (py_strip ''rainfall'') = ''rainfall''"
  "\<not> py_isdigit (py_replace_char CHR ''-'' [] ''rainfall'')"
  "''rainfall'' \<notin> STOPWORDS"
  by code_simp+

lemma precipitation_kept:
  "py_lower (py_strip ''precipitation'') = ''precipitation''"
  "\<not> py_isdigit (py_replace_char CHR ''-'' [] ''precipitation'')"
  "''precipitation'' \<notin> STOPWORDS"
  by code_simp+

lemma plan_fields:
  "expanded_terms (PlanningAgent_run llm q subs) = expand_terms llm (seed_terms q subs)"
  "variable_terms (PlanningAgent_run llm q subs) =
     fst (foldl fallback_step
       (foldl variable_term_step [] (expand_terms llm (seed_terms q subs)),
        set (foldl variable_term_step [] (expand_terms llm (seed_terms q subs))))
       fallback_synonyms)"
  by (simp_all add: PlanningAgent_run_def Let_def)

lemma cp_char_of: "cp (char_of n) = n mod 256"
  by (simp add: cp_def)

lemma py_isspace_lower_char: "py_isspace (py_lower_char c) = py_isspace c"
  by (auto simp: py_isspace_def py_lower_char_def Let_def cp_char_of)

lemma py_lower_char_idem: "py_lower_char (py_lower_char c) = py_lower_char c"
  by (auto simp: py_lower_char_def Let_def cp_char_of)

lemma py_lower_idem: "py_lower (py_lower s) = py_lower s"
  by (simp add: py_lower_def py_lower_char_idem)

lemma dropWhile_space_lower:
  "dropWhile py_isspace (py_lower s) = py_lower (dropWhile py_isspace s)"
  by (induction s) (simp_all add: py_lower_def py_isspace_lower_char)

lemma py_strip_lower: "py_strip (py_lower s) = py_lower (py_strip s)"
proof -
  have r: "rev (py_lower t) = py_lower (rev t)" for t
    by (simp add: py_lower_def rev_map)
  show ?thesis
    by (simp only: py_strip_def dropWhile_space_lower r)
qed

lemma dropWhile_fixed: "xs = [] \<or> \<not> P (hd xs) \<Longrightarrow> dropWhile P xs = xs"
  by (cases xs) auto

lemma py_strip_idem: "py_strip (py_strip s) = py_strip s"
proof -
  define a where "a = dropWhile py_isspace s"
  define b where "b = dropWhile py_isspace (rev a)"
  have a: "a = [] \<or> \<not> py_isspace (hd a)"
    unfolding a_def by (metis hd_dropWhile)
  have b: "b = [] \<or> \<not> py_isspace (hd b)"
    unfolding b_def by (metis hd_dropWhile)
  have strip: "py_strip s = rev b"
    by (simp add: py_strip_def a_def b_def)
  have "rev b = [] \<or> \<not> py_isspace (hd (rev b))"
  proof (cases "b = []")
    case True
    then show ?thesis by simp
  next
    case False
    obtain pre where pre: "rev a = pre @ b"
      unfolding b_def by (metis takeWhile_dropWhile_id)
    then have "a = rev b @ rev pre"
      by (metis rev_append rev_rev_ident)
    then have "hd a = hd (rev b)" "a \<noteq> []"
      using False by auto
    then show ?thesis
      using a by auto
  qed
  then have 1: "dropWhile py_isspace (rev b) = rev b"
    by (rule dropWhile_fixed)
  have 2: "dropWhile py_isspace b = b"
    using b by (rule dropWhile_fixed)
  show ?thesis
    unfolding strip py_strip_def [of "rev b"] 1 by (simp add: 2)
qed

lemma seed_normal:
  "s \<in> set (seed_terms q subs) \<Longrightarrow> py_lower (py_strip (py_lower s)) = py_lower s"
proof -
  assume "s \<in> set (seed_terms q subs)"
  then obtain x where "s = py_strip x"
    by (auto simp: seed_terms_def Let_def)
  then show ?thesis
    by (simp add: py_strip_lower py_lower_idem py_strip_idem)
qed

lemma baseline_subset:
  "set (baseline_synonyms terms) \<subseteq> set terms \<union> {''precipitation'', ''imerg'', ''trmm''}"
  by (auto simp: baseline_synonyms_def add_if_absent_def Let_def split: if_splits)

lemma rainfall_only_from_seeds:
  assumes "''rainfall'' \<in> set (map (\<lambda>term. py_lower (py_strip term))
             (expand_terms None (seed_terms q subs)))"
  shows "''rainfall'' \<in> set (map py_lower (seed_terms q subs))"
proof -
  from assms obtain t where t: "t \<in> set (expand_terms None (seed_terms q subs))"
    and r: "py_lower (py_strip t) = ''rainfall''"
    by auto
  from t have "t \<in> set (baseline_synonyms
      (map py_lower (filter (\<lambda>s. s \<noteq> []) (seed_terms q subs))))"
    by (simp add: expand_terms_def set_dict_fromkeys)
  then have "t \<in> set (map py_lower (filter (\<lambda>s. s \<noteq> []) (seed_terms q subs))) \<union>
      {''precipitation'', ''imerg'', ''trmm''}"
    using baseline_subset [of "map py_lower (filter (\<lambda>s. s \<noteq> []) (seed_terms q subs))"]
    by blast
  then consider s where "s \<in> set (seed_terms q subs)" "t = py_lower s"
    | "t \<in> {''precipitation'', ''imerg'', ''trmm''}"
    by auto
  then show ?thesis
  proof cases
    case 1
    then have "py_lower s = ''rainfall''"
      using r seed_normal by metis
    then show ?thesis
      using 1 by force
  next
    case 2
    then have "py_lower (py_strip t) \<noteq> ''rainfall''"
      by (elim insertE emptyE; hypsubst; code_simp)
    then show ?thesis
      using r by simp
  qed
qed

lemma variable_terms_value:
  "variable_terms (PlanningAgent_run llm q subs) =
     first_occurrences
       (filter (\<lambda>t. t \<noteq> [] \<and> \<not> py_isdigit (py_replace_char CHR ''-'' [] t) \<and> t \<notin> STOPWORDS)
          (map (\<lambda>term. py_lower (py_strip term))
             (expanded_terms (PlanningAgent_run llm q subs)))) @
     (if ''precipitation'' \<notin> set (map (\<lambda>term. py_lower (py_strip term))
                                     (expanded_terms (PlanningAgent_run llm q subs))) \<and>
         (\<exists>b \<in> {''rainfall'', ''imerg'', ''trmm''}.
             b \<in> set (map (\<lambda>term. py_lower (py_strip term))
                       (expanded_terms (PlanningAgent_run llm q subs))))
      then [''precipitation''] else [])"
proof -
  define ex where "ex = expand_terms llm (seed_terms q subs)"
  define N where "N = map (\<lambda>term. py_lower (py_strip term)) ex"
  define F where "F = filter (\<lambda>t. t \<noteq> [] \<and> \<not> py_isdigit (py_replace_char CHR ''-'' [] t) \<and> t \<notin> STOPWORDS) N"
  have kept: "x \<in> set F \<longleftrightarrow> x \<in> set N"
    if "x \<in> {''rainfall'', ''imerg'', ''trmm'', ''precipitation''}" for x
  proof -
    have "x \<noteq> [] \<and> \<not> py_isdigit (py_replace_char CHR ''-'' [] x) \<and> x \<notin> STOPWORDS"
      using that by (elim insertE emptyE; hypsubst; code_simp)
    then show ?thesis
      by (simp add: F_def)
  qed
  show ?thesis
    unfolding plan_fields ex_def [symmetric] fallback_result variable_term_loop_first
    unfolding N_def [symmetric] F_def [symmetric]
    by (simp add: set_first_occurrences kept)
qed

lemma rainfall_needs_seed:
  assumes "''rainfall'' \<in> set (variable_terms (PlanningAgent_run None q subs))"
  shows "''rainfall'' \<in> set (map py_lower (seed_terms q subs))"
proof -
  have "''rainfall'' \<in> set (map (\<lambda>term. py_lower (py_strip term))
      (expanded_terms (PlanningAgent_run None q subs)))"
    using assms unfolding variable_terms_value [of None q subs]
    by (auto simp: set_first_occurrences split: if_splits)
  then show ?thesis
    unfolding plan_fields(1) by (rule rainfall_only_from_seeds)
qed

text \<open>
  C8 (as amended). When \<^verbatim>\<open>rainfall\<close> is one of the seed terms (a trimmed subquery, or
  a whitespace-separated word of the query with its commas replaced by spaces), compared
  in lower case, the variable terms contain both \<^verbatim>\<open>rainfall\<close> and
  \<^verbatim>\<open>precipitation\<close>; without a language model the variable terms contain
  \<^verbatim>\<open>rainfall\<close> in no other case. For every input, with or without a language model,
  no variable term is a stopword, none is empty, none is all digits once its hyphens are
  removed (a term made of hyphens alone is kept), no term occurs twice, and the list is
  the first occurrences, in order, of the trimmed and lowercased expanded terms that pass
  these filters, followed by \<^verbatim>\<open>precipitation\<close> when that is absent and one of
  \<^verbatim>\<open>rainfall\<close>, \<^verbatim>\<open>imerg\<close>, \<^verbatim>\<open>trmm\<close> is present.
\<close>

theorem planner_variable_terms:
  "(''rainfall'' \<in> set (map py_lower (seed_terms q subs)) \<longrightarrow>
      ''rainfall'' \<in> set (variable_terms (PlanningAgent_run llm q subs)) \<and>
      ''precipitation'' \<in> set (variable_terms (PlanningAgent_run llm q subs))) \<and>
   (''rainfall'' \<in> set (variable_terms (PlanningAgent_run None q subs)) \<longrightarrow>
      ''rainfall'' \<in> set (map py_lower (seed_terms q subs))) \<and>
   (\<forall>t \<in> set (variable_terms (PlanningAgent_run llm q subs)).
      t \<notin> STOPWORDS \<and> \<not> py_isdigit (py_replace_char CHR ''-'' [] t) \<and> t \<noteq> []) \<and>
   distinct (variable_terms (PlanningAgent_run llm q subs)) \<and>
   variable_terms (PlanningAgent_run llm q subs) =
     first_occurrences
       (filter (\<lambda>t. t \<noteq> [] \<and> \<not> py_isdigit (py_replace_char CHR ''-'' [] t) \<and> t \<notin> STOPWORDS)
          (map (\<lambda>term. py_lower (py_strip term))
             (expanded_terms (PlanningAgent_run llm q subs)))) @
     (if ''precipitation'' \<notin> set (map (\<lambda>term. py_lower (py_strip term))
                                     (expanded_terms (PlanningAgent_run llm q subs))) \<and>
         (\<exists>b \<in> {''rainfall'', ''imerg'', ''trmm''}.
             b \<in> set (map (\<lambda>term. py_lower (py_strip term))
                       (expanded_terms (PlanningAgent_run llm q subs))))
      then [''precipitation''] else [])"
proof -
  define ex where "ex = expand_terms llm (seed_terms q subs)"
  define N where "N = map (\<lambda>term. py_lower (py_strip term)) ex"
  define F where "F = filter (\<lambda>t. t \<noteq> [] \<and> \<not> py_isdigit (py_replace_char CHR ''-'' [] t) \<and> t \<notin> STOPWORDS) N"
  define vt where "vt = variable_terms (PlanningAgent_run llm q subs)"
  have kept: "x \<in> set F \<longleftrightarrow> x \<in> set N"
    if "x \<in> {''rainfall'', ''imerg'', ''trmm'', ''precipitation''}" for x
  proof -
    have "x \<noteq> [] \<and> \<not> py_isdigit (py_replace_char CHR ''-'' [] x) \<and> x \<notin> STOPWORDS"
      using that by (elim insertE emptyE; hypsubst; code_simp)
    then show ?thesis
      by (simp add: F_def)
  qed
  have vt_eq: "vt = first_occurrences F @
      (if ''precipitation'' \<notin> set N \<and> (\<exists>b \<in> {''rainfall'', ''imerg'', ''trmm''}. b \<in> set N)
       then [''precipitation''] else [])"
    unfolding vt_def plan_fields ex_def [symmetric] fallback_result variable_term_loop_first
    unfolding N_def [symmetric] F_def [symmetric]
    by (simp add: set_first_occurrences kept)
  have sub: "set vt \<subseteq> set F \<union> {''precipitation''}"
    unfolding vt_eq by (auto simp: set_first_occurrences)
  have filt: "\<forall>t \<in> set vt. t \<notin> STOPWORDS \<and> \<not> py_isdigit (py_replace_char CHR ''-'' [] t) \<and> t \<noteq> []"
  proof
    fix t assume "t \<in> set vt"
    with sub consider "t \<in> set F" | "t = ''precipitation''"
      by blast
    then show "t \<notin> STOPWORDS \<and> \<not> py_isdigit (py_replace_char CHR ''-'' [] t) \<and> t \<noteq> []"
    proof cases
      case 1
      then show ?thesis by (simp add: F_def)
    next
      case 2
      then show ?thesis using precipitation_kept by simp
    qed
  qed
  have dist: "distinct vt"
    unfolding vt_eq by (simp add: distinct_first_occurrences set_first_occurrences kept)
  have rain: "''rainfall'' \<in> set vt \<and> ''precipitation'' \<in> set vt"
    if h: "''rainfall'' \<in> set (map py_lower (seed_terms q subs))"
  proof -
    from expand_terms_rainfall [OF h, of llm]
    have r: "''rainfall'' \<in> set ex" and p: "''precipitation'' \<in> set ex"
      by (simp_all add: ex_def)
    have "py_lower (py_strip ''rainfall'') \<in> set N" "py_lower (py_strip ''precipitation'') \<in> set N"
      unfolding N_def set_map by (rule imageI [OF r], rule imageI [OF p])
    then have "''rainfall'' \<in> set N" "''precipitation'' \<in> set N"
      by (simp_all only: rainfall_kept precipitation_kept)
    then have "''rainfall'' \<in> set F" "''precipitation'' \<in> set F"
      by (simp_all add: kept)
    then show ?thesis
      unfolding vt_eq by (simp add: set_first_occurrences)
  qed
  have conv: "''rainfall'' \<in> set (variable_terms (PlanningAgent_run None q subs)) \<longrightarrow>
      ''rainfall'' \<in> set (map py_lower (seed_terms q subs))"
    using rainfall_needs_seed by blast
  show ?thesis
    using rain conv filt dist vt_eq
    unfolding vt_def F_def N_def ex_def plan_fields(1) [symmetric]
    by blast
qed

theorem planner_variable_terms_witness:
  "''rainfall'' \<in> set (map py_lower (seed_terms ''rainfall 2010-2012 over sub-saharan africa''
      [''rainfall 2010-2012 over sub-saharan africa''])) \<and>
   ''rainfall'' \<in> set (variable_terms (PlanningAgent_run None
      ''rainfall 2010-2012 over sub-saharan africa''
      [''rainfall 2010-2012 over sub-saharan africa''])) \<and>
   ''precipitation'' \<in> set (variable_terms (PlanningAgent_run None
      ''rainfall 2010-2012 over sub-saharan africa''
      [''rainfall 2010-2012 over sub-saharan africa''])) \<and>
   variable_terms (PlanningAgent_run None ''rainfall 2010-2012 over sub-saharan africa''
      [''rainfall 2010-2012 over sub-saharan africa'']) =
     [''rainfall 2010-2012 over sub-saharan africa'', ''rainfall'', ''sub-saharan'',
      ''africa'', ''precipitation'', ''imerg'', ''trmm'']"
proof -
  let ?q = "''rainfall 2010-2012 over sub-saharan africa''"
  have hyp: "''rainfall'' \<in> set (map py_lower (seed_terms ?q [?q]))"
    by code_simp
  have val: "variable_terms (PlanningAgent_run None ?q [?q]) =
     [''rainfall 2010-2012 over sub-saharan africa'', ''rainfall'', ''sub-saharan'',
      ''africa'', ''precipitation'', ''imerg'', ''trmm'']"
    by code_simp
  from planner_variable_terms [of ?q "[?q]" None] hyp
  have "''rainfall'' \<in> set (variable_terms (PlanningAgent_run None ?q [?q])) \<and>
      ''precipitation'' \<in> set (variable_terms (PlanningAgent_run None ?q [?q]))"
    by blast
  with hyp val show ?thesis
    by blast
qed

text \<open>
  C8 as stated fails in two ways. An input that contains \<^verbatim>\<open>rainfall\<close> only inside a
  longer seed term yields neither \<^verbatim>\<open>rainfall\<close> nor \<^verbatim>\<open>precipitation\<close>: the query
  \<^verbatim>\<open>Show me rainfall.\<close> has the word \<^verbatim>\<open>rainfall.\<close>, and a subquery
  \<^verbatim>\<open>rainfall over africa\<close> is one seed term as a whole. And for the query
  \<^verbatim>\<open>rainfall - africa\<close> the variable terms contain the word \<^verbatim>\<open>-\<close>, which consists
  of hyphens only.
\<close>

theorem planner_variable_terms_counterexample:
  "py_in ''rainfall'' ''Show me rainfall.'' \<and>
   variable_terms (PlanningAgent_run None ''Show me rainfall.'' [''Show me rainfall.'']) =
     [''show me rainfall.'', ''show'', ''me'', ''rainfall.''] \<and>
   py_in ''rainfall'' ''rainfall over africa'' \<and>
   variable_terms (PlanningAgent_run None ''precip data'' [''rainfall over africa'']) =
     [''rainfall over africa'', ''precip'', ''data''] \<and>
   variable_terms (PlanningAgent_run None ''rainfall - africa'' []) =
     [''rainfall'', ''-'', ''africa'', ''precipitation'', ''imerg'', ''trmm''] \<and>
   digits_and_hyphens_only ''-''"
  by code_simp

section \<open>Federated search orchestrator (cmr\_agent/agents/cmr\_agent.py)\<close>

text \<open>
  An item of a search response is a JSON object. The model keeps what the orchestrator
  and the analysis read from it, each value of the JSON type the code reads it as: under
  \<^verbatim>\<open>meta\<close> the concept id and the provider id; under \<^verbatim>\<open>umm\<close> the short and the long
  name of a collection, the name of a variable, and the platforms of a collection with
  their names and instruments (a list of objects; a single object stands for the list
  holding it); the collection associations of a variable (each with the keys
  \<^verbatim>\<open>concept_id\<close> and \<^verbatim>\<open>concept-id\<close>); the temporal range of a granule (absent, not
  parseable, or a begin and an end instant in microseconds); the bounding boxes of a
  granule (west, south, east, north as the numbers \<^verbatim>\<open>float()\<close> returns, or nothing for
  a box on which \<^verbatim>\<open>float()\<close> raises); for a collection the first value, as \<^verbatim>\<open>str()\<close>
  gives it, of each of its additional attributes whose name starts with "spatial
  resolution", with what \<^verbatim>\<open>float()\<close> makes of that string (a number, or nothing when
  \<^verbatim>\<open>float()\<close> raises); and the rest as an opaque payload. A response is a dictionary
  whose key \<^verbatim>\<open>items\<close> may be absent; \<^verbatim>\<open>error\<close> holds the exception whose \<^verbatim>\<open>str()\<close>
  the source stores. A client call either raises or returns a response; what each call
  of a stage does is an argument of the model, indexed by the position of the call among
  its siblings. The request parameters and the request log (\<^verbatim>\<open>_log\<close>, which cannot
  raise) are not part of the model.
\<close>

datatype temporal = NoRange | BadRange | Range int int

record assoc =
  a_concept_id :: "string option"
  a_concept_dash_id :: "string option"

record instrument =
  i_short_name :: "string option"
  i_long_name :: "string option"

record platform =
  p_short_name :: "string option"
  p_long_name :: "string option"
  p_instruments :: "instrument list"

type_synonym box = "rat \<times> rat \<times> rat \<times> rat"

record item =
  meta_concept_id :: "string option"
  meta_provider_id :: "string option"
  umm_short_name :: "string option"
  umm_long_name :: "string option"
  umm_name :: "string option"
  umm_platforms :: "platform list"
  assoc_collections :: "assoc list"
  range_date_time :: temporal
  bounding_boxes :: "box option list"
  spatial_resolutions :: "(string \<times> rat option) list"
  payload :: string

record result_set =
  rs_items :: "item list option"
  rs_error :: "py_exception option"

type_synonym call_outcome = "py_exception + result_set"

definition truthy :: "string option \<Rightarrow> bool" where
  "truthy v = (case v of None \<Rightarrow> False | Some s \<Rightarrow> s \<noteq> [])"

definition py_or :: "string option \<Rightarrow> string option \<Rightarrow> string option" where
  "py_or a b = (if truthy a then a else b)"

definition extract_items :: "result_set \<Rightarrow> item list" where
  "extract_items obj = (case rs_items obj of None \<Rightarrow> [] | Some xs \<Rightarrow> xs)"

definition is_circuit_error :: "py_exception \<Rightarrow> bool" where
  "is_circuit_error e =
     (case e of RuntimeError msg \<Rightarrow> py_in ''circuit'' (py_lower msg) | _ \<Rightarrow> False)"

record agent =
  collection_cache :: "string \<rightharpoonup> item"
  circuit_tripped :: bool

definition CMRAgent_init :: agent where
  "CMRAgent_init = \<lparr> collection_cache = Map.empty, circuit_tripped = False \<rparr>"

definition flag_circuit :: "py_exception \<Rightarrow> agent \<Rightarrow> agent" where
  "flag_circuit e ag = (if is_circuit_error e then ag\<lparr> circuit_tripped := True \<rparr> else ag)"

definition error_result :: "py_exception \<Rightarrow> result_set" where
  "error_result e = \<lparr> rs_items = Some [], rs_error = Some e \<rparr>"

record stage_view =
  sv_query :: "string option"
  sv_variable_terms :: "string list option"

record stage_env =
  var_outcome :: "nat \<Rightarrow> call_outcome"
  id_outcome :: call_outcome
  kw_outcome :: call_outcome
  short_outcome :: "nat \<Rightarrow> call_outcome"
  science_outcome :: "nat \<Rightarrow> call_outcome"
  granule_outcome :: "nat \<Rightarrow> call_outcome"

record search_result =
  sr_query :: string
  sr_variables :: result_set
  sr_collections :: result_set
  sr_granules :: result_set
  sr_related_collection_ids :: "string list option"

text \<open>The loop over the gathered variable results.\<close>

definition var_step :: "agent \<times> result_set list \<Rightarrow> call_outcome \<Rightarrow> agent \<times> result_set list" where
  "var_step st res =
     (case st of (ag, var_results) \<Rightarrow>
        (case res of
           Inl e \<Rightarrow> (flag_circuit e ag, var_results @ [error_result e])
         | Inr r \<Rightarrow> (ag, var_results @ [r])))"

definition assoc_ids :: "item \<Rightarrow> string list" where
  "assoc_ids v =
     concat (map (\<lambda>a. let cid = py_or (a_concept_id a) (a_concept_dash_id a)
                       in if truthy cid then [the cid] else [])
               (assoc_collections v))"

definition related_ids :: "result_set list \<Rightarrow> string list" where
  "related_ids var_results =
     concat (map (\<lambda>vres. concat (map assoc_ids (extract_items vres))) var_results)"

definition unique_step :: "string list \<times> string set \<Rightarrow> string \<Rightarrow> string list \<times> string set" where
  "unique_step st cid =
     (case st of (unique, seen) \<Rightarrow>
        if cid \<notin> seen then (unique @ [cid], insert cid seen) else (unique, seen))"

definition cache_step ::
    "(string \<rightharpoonup> item) \<Rightarrow> item list \<times> string list \<Rightarrow> string \<Rightarrow> item list \<times> string list" where
  "cache_step cache st cid =
     (case st of (cached_items, missing_ids) \<Rightarrow>
        (case cache cid of
           Some it \<Rightarrow> (cached_items @ [it], missing_ids)
         | None \<Rightarrow> (cached_items, missing_ids @ [cid])))"

definition cache_store :: "(string \<rightharpoonup> item) \<Rightarrow> item \<Rightarrow> (string \<rightharpoonup> item)" where
  "cache_store cache c =
     (let cid = meta_concept_id c in if truthy cid then cache(the cid \<mapsto> c) else cache)"

definition extra_step :: "agent \<times> result_set list \<Rightarrow> call_outcome \<Rightarrow> agent \<times> result_set list" where
  "extra_step st er =
     (case st of (ag, results_list) \<Rightarrow>
        (case er of
           Inl e \<Rightarrow> (flag_circuit e ag, results_list)
         | Inr r \<Rightarrow> (ag, results_list @ [r])))"

definition merge_step :: "item list \<times> string set \<Rightarrow> item \<Rightarrow> item list \<times> string set" where
  "merge_step st c =
     (case st of (merged_items, merge_seen) \<Rightarrow>
        (let cid = meta_concept_id c
         in if truthy cid \<and> the cid \<notin> merge_seen
            then (merged_items @ [c], insert (the cid) merge_seen)
            else (merged_items, merge_seen)))"

definition granule_step :: "agent \<times> item list \<Rightarrow> call_outcome \<Rightarrow> agent \<times> item list" where
  "granule_step st gr =
     (case st of (ag, combined) \<Rightarrow>
        (case gr of
           Inl e \<Rightarrow> (flag_circuit e ag, combined)
         | Inr r \<Rightarrow> (ag, combined @ extract_items r)))"

text \<open>
  \<^verbatim>\<open>run_stage\<close> up to the point where the list \<^verbatim>\<open>results_list\<close> is complete: the
  variable searches, the cache lookup, the lookup by concept id, the keyword search and
  the short-name and science-keyword searches. The keyword search is awaited on its own,
  so its exception leaves \<^verbatim>\<open>run_stage\<close>.
\<close>

record collected =
  col_q :: string
  col_var_results :: "result_set list"
  col_related_unique :: "string list"
  col_results_list :: "result_set list"

definition collect_results ::
    "string \<Rightarrow> agent \<Rightarrow> stage_view \<Rightarrow> stage_env \<Rightarrow> (py_exception + collected) \<times> agent" where
  "collect_results query ag stage env =
     (let q = (case sv_query stage of None \<Rightarrow> query | Some s \<Rightarrow> s);
          variable_terms =
            (case sv_variable_terms stage of
               None \<Rightarrow> [q] | Some ts \<Rightarrow> if ts = [] then [q] else ts);
          raw_var_results = map (var_outcome env) [0..<length variable_terms];
          (ag, var_results) = foldl var_step (ag, []) raw_var_results;
          related_collection_ids = related_ids var_results;
          related_collection_ids_unique =
            fst (foldl unique_step ([], {}) related_collection_ids);
          (cached_items, missing_ids) =
            foldl (cache_step (collection_cache ag)) ([], []) related_collection_ids_unique;
          (ag, collections_by_id) =
            (if missing_ids \<noteq> [] then
               (case id_outcome env of
                  Inr r \<Rightarrow>
                    (ag\<lparr> collection_cache :=
                           foldl cache_store (collection_cache ag) (extract_items r) \<rparr>, r)
                | Inl e \<Rightarrow> (flag_circuit e ag, \<lparr> rs_items = Some [], rs_error = None \<rparr>))
             else (ag, \<lparr> rs_items = Some [], rs_error = None \<rparr>))
      in case kw_outcome env of
           Inl e \<Rightarrow> (Inl e, ag)
         | Inr kw_cols \<Rightarrow>
             (let results_list = [kw_cols];
                  n_extra = length (take 3 variable_terms);
                  extra_results = map (short_outcome env) [0..<n_extra] @
                                  map (science_outcome env) [0..<n_extra];
                  (ag, results_list) = foldl extra_step (ag, results_list) extra_results;
                  results_list = results_list @ [collections_by_id];
                  results_list =
                    (if cached_items \<noteq> []
                     then results_list @ [\<lparr> rs_items = Some cached_items, rs_error = None \<rparr>]
                     else results_list)
              in (Inr \<lparr> col_q = q, col_var_results = var_results,
                        col_related_unique = related_collection_ids_unique,
                        col_results_list = results_list \<rparr>, ag)))"

text \<open>The rest of \<^verbatim>\<open>run_stage\<close>: the merge, the granule fetches and the stage's output.\<close>

definition run_stage ::
    "string \<Rightarrow> agent \<Rightarrow> stage_view \<Rightarrow> stage_env \<Rightarrow> (py_exception + search_result) \<times> agent" where
  "run_stage query ag stage env =
     (case collect_results query ag stage env of
        (Inl e, ag) \<Rightarrow> (Inl e, ag)
      | (Inr col, ag) \<Rightarrow>
          (let merged_items =
                 fst (foldl merge_step ([], {})
                        (concat (map extract_items (col_results_list col))));
               granules_results =
                 map (granule_outcome env) [0..<length (take 3 merged_items)];
               (ag, combined_granules_items) = foldl granule_step (ag, []) granules_results
           in (Inr \<lparr> sr_query = col_q col,
                     sr_variables =
                       \<lparr> rs_items = Some (concat (map extract_items (col_var_results col))),
                         rs_error = None \<rparr>,
                     sr_collections = \<lparr> rs_items = Some merged_items, rs_error = None \<rparr>,
                     sr_granules = \<lparr> rs_items = Some combined_granules_items, rs_error = None \<rparr>,
                     sr_related_collection_ids = Some (col_related_unique col) \<rparr>,
               ag)))"

text \<open>
  Plain mode. The nested coroutine \<^verbatim>\<open>granules\<close> catches every exception and returns
  a dictionary in all cases; which one is an argument. The stages and the subqueries
  run concurrently in the source and are taken here in their order; the breaker the
  client holds when the searches have finished, and the clock then, are arguments.
\<close>

record plain_env =
  collections_outcome :: call_outcome
  granules_result :: result_set
  variables_outcome :: call_outcome

definition handle :: "agent \<Rightarrow> call_outcome \<Rightarrow> result_set \<times> agent" where
  "handle ag res =
     (case res of
        Inr r \<Rightarrow> (r, ag)
      | Inl e \<Rightarrow> (error_result e, flag_circuit e ag))"

definition search_for :: "agent \<Rightarrow> string \<Rightarrow> plain_env \<Rightarrow> search_result \<times> agent" where
  "search_for ag q env =
     (let (collections, ag) = handle ag (collections_outcome env);
          (granules_res, ag) = handle ag (Inr (granules_result env));
          (variables_res, ag) = handle ag (variables_outcome env)
      in (\<lparr> sr_query = q, sr_variables = variables_res, sr_collections = collections,
            sr_granules = granules_res, sr_related_collection_ids = None \<rparr>, ag))"

datatype run_input = PlanDict "string list" "stage_view list" | SubqueryList "string list"

record run_env =
  stage_envs :: "nat \<Rightarrow> stage_env"
  plain_envs :: "nat \<Rightarrow> plain_env"
  breaker_at_end :: CircuitBreaker
  clock_at_end :: real

record run_result =
  searches :: "search_result list"
  circuit_breaker_tripped :: "bool option"

fun run_stages ::
    "string \<Rightarrow> agent \<Rightarrow> (nat \<Rightarrow> stage_env) \<Rightarrow> nat \<Rightarrow> stage_view list \<Rightarrow>
     (py_exception + search_result list) \<times> agent" where
  "run_stages query ag envs i [] = (Inr [], ag)"
| "run_stages query ag envs i (st # sts) =
     (case run_stage query ag st (envs i) of
        (Inl e, ag) \<Rightarrow> (Inl e, ag)
      | (Inr out, ag) \<Rightarrow>
          (case run_stages query ag envs (i + 1) sts of
             (Inl e, ag) \<Rightarrow> (Inl e, ag)
           | (Inr outs, ag) \<Rightarrow> (Inr (out # outs), ag)))"

fun search_all ::
    "agent \<Rightarrow> (nat \<Rightarrow> plain_env) \<Rightarrow> nat \<Rightarrow> string list \<Rightarrow> search_result list \<times> agent" where
  "search_all ag envs i [] = ([], ag)"
| "search_all ag envs i (q # qs) =
     (case search_for ag q (envs i) of
        (out, ag) \<Rightarrow> (case search_all ag envs (i + 1) qs of (outs, ag) \<Rightarrow> (out # outs, ag)))"

definition plain_subqueries :: "string \<Rightarrow> run_input \<Rightarrow> string list" where
  "plain_subqueries query plan_or_subqueries =
     (let subqueries = (case plan_or_subqueries of PlanDict keys _ \<Rightarrow> keys | SubqueryList qs \<Rightarrow> qs)
      in if subqueries = [] then [query] else subqueries)"

definition CMRAgent_run ::
    "agent \<Rightarrow> string \<Rightarrow> run_input \<Rightarrow> run_env \<Rightarrow> (py_exception + run_result) \<times> agent" where
  "CMRAgent_run ag query plan_or_subqueries env =
     (case plan_or_subqueries of
        PlanDict keys (st # sts) \<Rightarrow>
          (case run_stages query ag (stage_envs env) 0 (st # sts) of
             (Inl e, ag) \<Rightarrow> (Inl e, ag)
           | (Inr outs, ag) \<Rightarrow> (Inr \<lparr> searches = outs, circuit_breaker_tripped = None \<rparr>, ag))
      | _ \<Rightarrow>
          (let (outs, ag) =
                 search_all ag (plain_envs env) 0 (plain_subqueries query plan_or_subqueries);
               cb_open = \<not> fst (allow (breaker_at_end env) (clock_at_end env))
           in (Inr \<lparr> searches = outs,
                     circuit_breaker_tripped = Some (circuit_tripped ag \<or> cb_open) \<rparr>, ag)))"

text \<open>The pipeline step and the flag of the final response (cmr\_agent/graph/pipeline.py).\<close>

record cmr_state =
  cmr_results :: "run_result option"
  state_circuit_breaker_tripped :: "bool option"

definition cmr_step :: "string \<Rightarrow> run_input \<Rightarrow> run_env \<Rightarrow> py_exception + cmr_state" where
  "cmr_step user_query plan_or_subqueries env =
     (case fst (CMRAgent_run CMRAgent_init user_query plan_or_subqueries env) of
        Inl e \<Rightarrow> Inl e
      | Inr res \<Rightarrow>
          Inr \<lparr> cmr_results = Some res,
                state_circuit_breaker_tripped =
                  Some (case circuit_breaker_tripped res of None \<Rightarrow> False | Some b \<Rightarrow> b) \<rparr>)"

definition final_circuit_breaker_tripped :: "cmr_state \<Rightarrow> bool" where
  "final_circuit_breaker_tripped state =
     (case state_circuit_breaker_tripped state of None \<Rightarrow> False | Some b \<Rightarrow> b)"

text \<open>
  What the pipeline passes on: \<^verbatim>\<open>state.get('plan') or state.get('subqueries', [])\<close>. The
  planner's dictionary has four keys and three stages, whose own keys are \<^verbatim>\<open>name\<close>,
  \<^verbatim>\<open>type\<close>, \<^verbatim>\<open>criteria\<close> and \<^verbatim>\<open>depends_on\<close>: a stage has no key \<^verbatim>\<open>query\<close> and no
  key \<^verbatim>\<open>variable_terms\<close> for \<^verbatim>\<open>run_stage\<close> to find.
\<close>

definition view_of_stage :: "stage \<Rightarrow> stage_view" where
  "view_of_stage st = \<lparr> sv_query = None, sv_variable_terms = None \<rparr>"

definition pipeline_input :: "plan option \<Rightarrow> string list \<Rightarrow> run_input" where
  "pipeline_input pl subqueries =
     (case pl of
        Some p \<Rightarrow> PlanDict [''parallel'', ''expanded_terms'', ''variable_terms'', ''stages'']
                    (map view_of_stage (stages p))
      | None \<Rightarrow> SubqueryList subqueries)"


text \<open>
  Two notions for comparison with the code. "Deduplicated by concept id, first-seen
  order preserved": the item at position \<open>i\<close> is kept exactly when it has a concept id
  and no item before position \<open>i\<close> has the same one. The items of the calls that
  returned, in the order of the calls.
\<close>

definition first_by_concept_id :: "item list \<Rightarrow> item list" where
  "first_by_concept_id xs =
     map (\<lambda>i. xs ! i)
       (filter (\<lambda>i. truthy (meta_concept_id (xs ! i)) \<and>
                    meta_concept_id (xs ! i) \<notin> set (map meta_concept_id (take i xs)))
          [0..<length xs])"

definition returned_items :: "call_outcome list \<Rightarrow> item list" where
  "returned_items outs =
     concat (map (\<lambda>out. case out of Inl e \<Rightarrow> [] | Inr r \<Rightarrow> extract_items r) outs)"

text \<open>
  The sources of a stage's lists, written from the calls the stage makes. The stage
  searches with its query and its variable terms (the query alone when it has none), one
  variable search per term. The variable items are the items of the variable searches
  that returned, in the order of the terms. The associated ids are the concept ids named
  by the collection associations of these items, each at its first occurrence. The
  collection sources are, in this order: the items of the keyword search, of the
  short-name searches that returned, of the science-keyword searches that returned (one
  of each for each of the first three terms), of the lookup by concept id (made when some
  associated id is not in the cache, and empty when it raised), and the cached items of
  the associated ids, the cache being the one the stage finds when it looks them up.
  \<open>cached_response\<close> is the response the stage builds from its cache hits.
\<close>

definition stage_query :: "string \<Rightarrow> stage_view \<Rightarrow> string" where
  "stage_query query stage = (case sv_query stage of None \<Rightarrow> query | Some s \<Rightarrow> s)"

definition stage_terms :: "string \<Rightarrow> stage_view \<Rightarrow> string list" where
  "stage_terms query stage =
     (case sv_variable_terms stage of
        None \<Rightarrow> [stage_query query stage]
      | Some ts \<Rightarrow> if ts = [] then [stage_query query stage] else ts)"

definition variable_items :: "stage_env \<Rightarrow> nat \<Rightarrow> item list" where
  "variable_items env n = returned_items (map (var_outcome env) [0..<n])"

definition associated_ids :: "stage_env \<Rightarrow> nat \<Rightarrow> string list" where
  "associated_ids env n = first_occurrences (concat (map assoc_ids (variable_items env n)))"

definition collection_sources :: "(string \<rightharpoonup> item) \<Rightarrow> stage_env \<Rightarrow> nat \<Rightarrow> item list" where
  "collection_sources cache env n =
     returned_items [kw_outcome env] @
     returned_items (map (short_outcome env) [0..<min 3 n]) @
     returned_items (map (science_outcome env) [0..<min 3 n]) @
     (if list_all (\<lambda>cid. cache cid \<noteq> None) (associated_ids env n) then []
      else returned_items [id_outcome env]) @
     map (\<lambda>cid. the (cache cid)) (filter (\<lambda>cid. cache cid \<noteq> None) (associated_ids env n))"

definition cached_response :: "item list \<Rightarrow> result_set list" where
  "cached_response cached_items =
     (if cached_items \<noteq> [] then [\<lparr> rs_items = Some cached_items, rs_error = None \<rparr>] else [])"

text \<open>
  Inputs for the examples: items that carry nothing but a concept id, a response with
  given items, a stage with two variable terms whose searches both return the variable
  V1, and a run in which every variable search is rejected with a given exception while
  every other call returns an empty response.
\<close>

definition item_of :: "string \<Rightarrow> item" where
  "item_of cid =
     \<lparr> meta_concept_id = Some cid, meta_provider_id = None, umm_short_name = None,
       umm_long_name = None, umm_name = None, umm_platforms = [], assoc_collections = [],
       range_date_time = NoRange, bounding_boxes = [], spatial_resolutions = [],
       payload = [] \<rparr>"

definition items_response :: "item list \<Rightarrow> call_outcome" where
  "items_response xs = Inr \<lparr> rs_items = Some xs, rs_error = None \<rparr>"

definition two_terms :: stage_view where
  "two_terms = \<lparr> sv_query = Some ''rain'', sv_variable_terms = Some [''rainfall'', ''precipitation''] \<rparr>"

definition overlapping_env :: stage_env where
  "overlapping_env =
     \<lparr> var_outcome = (\<lambda>i. items_response [item_of ''V1'']),
       id_outcome = items_response [],
       kw_outcome = items_response [item_of ''C1'', item_of ''C2''],
       short_outcome = (\<lambda>i. items_response [item_of ''C2'', item_of ''C3'']),
       science_outcome = (\<lambda>i. Inl (TransportError ''timeout'')),
       granule_outcome = (\<lambda>i. items_response [item_of ''G1'']) \<rparr>"

text \<open>
  A stage that uses every source: its variable V1 is associated with the collections
  C4 (in the cache), C5 and C2 (looked up by concept id); the first science-keyword
  search and the second granule fetch fail.
\<close>

definition variable_of :: "string \<Rightarrow> assoc list \<Rightarrow> item" where
  "variable_of vid assocs = (item_of vid)\<lparr> assoc_collections := assocs \<rparr>"

definition cached_agent :: agent where
  "cached_agent = CMRAgent_init\<lparr> collection_cache := [''C4'' \<mapsto> item_of ''C4''] \<rparr>"

definition associated_env :: stage_env where
  "associated_env =
     \<lparr> var_outcome = (\<lambda>i. items_response
         [variable_of ''V1''
            [\<lparr> a_concept_id = Some ''C4'', a_concept_dash_id = None \<rparr>,
             \<lparr> a_concept_id = None, a_concept_dash_id = Some ''C5'' \<rparr>,
             \<lparr> a_concept_id = Some ''C2'', a_concept_dash_id = None \<rparr>]]),
       id_outcome = items_response [item_of ''C5'', item_of ''C2''],
       kw_outcome = items_response [item_of ''C1'', item_of ''C2''],
       short_outcome = (\<lambda>i. items_response [item_of ''C2'', item_of ''C3'']),
       science_outcome = (\<lambda>i. if i = 0 then Inl (TransportError ''timeout'')
                               else items_response [item_of ''C6'', item_of ''C1'']),
       granule_outcome = (\<lambda>i. if i = 1 then Inl (TransportError ''timeout'')
                               else items_response [item_of ''G1'']) \<rparr>"

definition variables_rejected_env :: "py_exception \<Rightarrow> run_env" where
  "variables_rejected_env e =
     \<lparr> stage_envs = (\<lambda>i.
         \<lparr> var_outcome = (\<lambda>j. Inl e),
           id_outcome = items_response [],
           kw_outcome = items_response [],
           short_outcome = (\<lambda>j. items_response []),
           science_outcome = (\<lambda>j. items_response []),
           granule_outcome = (\<lambda>j. items_response []) \<rparr>),
       plain_envs = (\<lambda>i.
         \<lparr> collections_outcome = items_response [],
           granules_result = \<lparr> rs_items = Some [], rs_error = None \<rparr>,
           variables_outcome = Inl e \<rparr>),
       breaker_at_end = CircuitBreaker_default,
       clock_at_end = 100 \<rparr>"

subsection \<open>Facts about the orchestrator\<close>

lemma first_by_concept_id_snoc:
  "first_by_concept_id (xs @ [x]) =
     first_by_concept_id xs @
     (if truthy (meta_concept_id x) \<and> meta_concept_id x \<notin> set (map meta_concept_id xs)
      then [x] else [])"
proof -
  let ?P = "\<lambda>ys i. truthy (meta_concept_id (ys ! i)) \<and>
      meta_concept_id (ys ! i) \<notin> set (map meta_concept_id (take i ys))"
  have f: "filter (?P (xs @ [x])) [0..<length xs] = filter (?P xs) [0..<length xs]"
    by (rule filter_cong) (auto simp: nth_append)
  have m: "map (\<lambda>i. (xs @ [x]) ! i) (filter (?P xs) [0..<length xs]) =
           map (\<lambda>i. xs ! i) (filter (?P xs) [0..<length xs])"
    by (rule map_cong) (auto simp: nth_append)
  have "first_by_concept_id (xs @ [x]) =
      map (\<lambda>i. (xs @ [x]) ! i) (filter (?P (xs @ [x])) ([0..<length xs] @ [length xs]))"
    by (simp add: first_by_concept_id_def del: take_append)
  also have "\<dots> = map (\<lambda>i. (xs @ [x]) ! i) (filter (?P xs) [0..<length xs]) @
      (if truthy (meta_concept_id x) \<and> meta_concept_id x \<notin> set (map meta_concept_id xs)
       then [x] else [])"
    unfolding filter_append map_append f by simp
  finally show ?thesis
    by (simp only: m first_by_concept_id_def)
qed

lemma merge_loop:
  "foldl merge_step ([], {}) xs =
     (first_by_concept_id xs,
      {s. Some s \<in> set (map meta_concept_id xs) \<and> s \<noteq> []})"
proof (induction xs rule: rev_induct)
  case Nil
  show ?case by (simp add: first_by_concept_id_def)
next
  case (snoc x xs)
  show ?case
  proof (cases "meta_concept_id x")
    case None
    then show ?thesis
      using snoc by (simp add: merge_step_def first_by_concept_id_snoc truthy_def)
  next
    case (Some s)
    then show ?thesis
      using snoc
      by (auto simp: merge_step_def first_by_concept_id_snoc truthy_def Let_def image_iff)
  qed
qed

lemma first_by_concept_id_subset: "set (first_by_concept_id xs) \<subseteq> set xs"
  by (induction xs rule: rev_induct)
    (auto simp: first_by_concept_id_snoc, simp add: first_by_concept_id_def)

lemma first_by_concept_id_truthy:
  "c \<in> set (first_by_concept_id xs) \<Longrightarrow> truthy (meta_concept_id c)"
  by (induction xs rule: rev_induct)
    (auto simp: first_by_concept_id_snoc first_by_concept_id_def split: if_splits)

lemma first_by_concept_id_distinct: "distinct (map meta_concept_id (first_by_concept_id xs))"
proof (induction xs rule: rev_induct)
  case Nil
  show ?case by (simp add: first_by_concept_id_def)
next
  case (snoc x xs)
  have "meta_concept_id ` set (first_by_concept_id xs) \<subseteq> meta_concept_id ` set xs"
    using first_by_concept_id_subset [of xs] by blast
  then show ?case
    using snoc by (auto simp: first_by_concept_id_snoc)
qed

lemma granule_loop:
  "foldl granule_step (ag, acc) outs =
     (foldl (\<lambda>ag out. case out of Inl e \<Rightarrow> flag_circuit e ag | Inr r \<Rightarrow> ag) ag outs,
      acc @ returned_items outs)"
  by (induction outs arbitrary: ag acc)
    (auto simp: granule_step_def returned_items_def split: sum.splits)


lemma var_loop:
  "foldl var_step (ag, acc) outs =
     (foldl (\<lambda>ag out. case out of Inl e \<Rightarrow> flag_circuit e ag | Inr r \<Rightarrow> ag) ag outs,
      acc @ map (\<lambda>out. case out of Inl e \<Rightarrow> error_result e | Inr r \<Rightarrow> r) outs)"
  by (induction outs arbitrary: ag acc) (auto simp: var_step_def split: sum.splits)

lemma flag_loop_cache:
  "collection_cache
     (foldl (\<lambda>ag out. case out of Inl e \<Rightarrow> flag_circuit e ag | Inr r \<Rightarrow> ag) ag outs) =
   collection_cache ag"
  by (induction outs arbitrary: ag) (auto simp: flag_circuit_def split: sum.splits)

lemma var_results_items:
  "concat (map extract_items (map (\<lambda>out. case out of Inl e \<Rightarrow> error_result e | Inr r \<Rightarrow> r) outs)) =
     returned_items outs"
  by (induction outs)
    (auto simp: returned_items_def error_result_def extract_items_def split: sum.splits)

lemma related_ids_items:
  "related_ids rs = concat (map assoc_ids (concat (map extract_items rs)))"
  by (induction rs) (simp_all add: related_ids_def)

lemma unique_loop:
  "foldl unique_step ([], {}) xs = (first_occurrences xs, set xs)"
proof (induction xs rule: rev_induct)
  case Nil
  show ?case by (simp add: first_occurrences_def)
next
  case (snoc x xs)
  then show ?case
    by (simp add: unique_step_def first_occurrences_snoc insert_absorb)
qed

lemma cache_loop:
  "foldl (cache_step cache) (found, missing) ids =
     (found @ map (\<lambda>cid. the (cache cid)) (filter (\<lambda>cid. cache cid \<noteq> None) ids),
      missing @ filter (\<lambda>cid. cache cid = None) ids)"
  by (induction ids arbitrary: found missing) (auto simp: cache_step_def split: option.splits)

lemma extra_loop:
  "foldl extra_step (ag, acc) outs =
     (foldl (\<lambda>ag out. case out of Inl e \<Rightarrow> flag_circuit e ag | Inr r \<Rightarrow> ag) ag outs,
      acc @ concat (map (\<lambda>out. case out of Inl e \<Rightarrow> [] | Inr r \<Rightarrow> [r]) outs))"
  by (induction outs arbitrary: ag acc) (auto simp: extra_step_def split: sum.splits)

lemma extra_items:
  "concat (map extract_items (concat (map (\<lambda>out. case out of Inl e \<Rightarrow> [] | Inr r \<Rightarrow> [r]) outs))) =
     returned_items outs"
  by (induction outs) (auto simp: returned_items_def split: sum.splits)

lemma returned_items_append:
  "returned_items (xs @ ys) = returned_items xs @ returned_items ys"
  by (simp add: returned_items_def)

lemma filter_none_empty:
  "filter (\<lambda>cid. cache cid = None) ids = [] \<longleftrightarrow> list_all (\<lambda>cid. cache cid \<noteq> None) ids"
  by (induction ids) auto

lemma collect_results_value:
  "fst (collect_results query ag stage env) =
     (case kw_outcome env of
        Inl e \<Rightarrow> Inl e
      | Inr kw \<Rightarrow>
          Inr \<lparr> col_q = stage_query query stage,
                col_var_results =
                  map (\<lambda>out. case out of Inl e \<Rightarrow> error_result e | Inr r \<Rightarrow> r)
                    (map (var_outcome env) [0..<length (stage_terms query stage)]),
                col_related_unique = associated_ids env (length (stage_terms query stage)),
                col_results_list =
                  [kw] @
                  concat (map (\<lambda>out. case out of Inl e \<Rightarrow> [] | Inr r \<Rightarrow> [r])
                    (map (short_outcome env) [0..<min 3 (length (stage_terms query stage))] @
                     map (science_outcome env) [0..<min 3 (length (stage_terms query stage))])) @
                  [if list_all (\<lambda>cid. collection_cache ag cid \<noteq> None)
                        (associated_ids env (length (stage_terms query stage)))
                   then \<lparr> rs_items = Some [], rs_error = None \<rparr>
                   else (case id_outcome env of
                           Inr r \<Rightarrow> r
                         | Inl e \<Rightarrow> \<lparr> rs_items = Some [], rs_error = None \<rparr>)] @
                  cached_response
                    (map (\<lambda>cid. the (collection_cache ag cid))
                       (filter (\<lambda>cid. collection_cache ag cid \<noteq> None)
                          (associated_ids env (length (stage_terms query stage))))) \<rparr>)"
  unfolding collect_results_def
  apply (simp only: Let_def var_loop case_prod_conv append_Nil unique_loop fst_conv
      related_ids_items var_results_items cache_loop extra_loop flag_loop_cache)
  apply (fold stage_query_def)
  apply (fold stage_terms_def)
  apply (fold variable_items_def)
  apply (fold associated_ids_def)
  apply (auto simp: filter_none_empty cached_response_def min.commute flag_circuit_def
      split: sum.splits)
  done

lemma merged_sources:
  "concat (map extract_items
     ([kw] @ concat (map (\<lambda>out. case out of Inl e \<Rightarrow> [] | Inr r \<Rightarrow> [r]) (shorts @ sciences)) @
      [if all_cached then \<lparr> rs_items = Some [], rs_error = None \<rparr>
       else (case by_id of Inr r \<Rightarrow> r | Inl e \<Rightarrow> \<lparr> rs_items = Some [], rs_error = None \<rparr>)] @
      cached_response cached)) =
   returned_items [Inr kw] @ returned_items shorts @ returned_items sciences @
   (if all_cached then [] else returned_items [by_id]) @ cached"
  by (auto simp: extra_items returned_items_append cached_response_def extract_items_def
      returned_items_def split: sum.splits)

text \<open>
  C4 (as amended). \<^verbatim>\<open>run_stage\<close> raises exactly when the keyword search does.
  Otherwise its collection list is the list of all collection items received, in the
  order keyword search, short-name searches, science-keyword searches, lookup by concept
  id, cache hits, with each concept id kept at its first occurrence and the items without
  a concept id dropped, so no concept id occurs twice. Its variable list is the
  concatenation, in the order of the terms, of the items of the variable searches that
  returned, and its granule list the concatenation of the items of the granule fetches
  that returned, one fetch for each of the first three merged collections; neither is
  deduplicated.
\<close>

theorem stage_merge:
  "fst (run_stage query ag stage env) =
     (case kw_outcome env of
        Inl e \<Rightarrow> Inl e
      | Inr kw \<Rightarrow>
          Inr \<lparr> sr_query = stage_query query stage,
                sr_variables =
                  \<lparr> rs_items = Some (variable_items env (length (stage_terms query stage))),
                    rs_error = None \<rparr>,
                sr_collections =
                  \<lparr> rs_items = Some (first_by_concept_id
                      (collection_sources (collection_cache ag) env
                         (length (stage_terms query stage)))),
                    rs_error = None \<rparr>,
                sr_granules =
                  \<lparr> rs_items = Some (returned_items (map (granule_outcome env)
                      [0..<min 3 (length (first_by_concept_id
                         (collection_sources (collection_cache ag) env
                            (length (stage_terms query stage)))))])),
                    rs_error = None \<rparr>,
                sr_related_collection_ids =
                  Some (associated_ids env (length (stage_terms query stage))) \<rparr>) \<and>
   distinct (map meta_concept_id (first_by_concept_id
     (collection_sources (collection_cache ag) env (length (stage_terms query stage))))) \<and>
   list_all (\<lambda>c. truthy (meta_concept_id c)) (first_by_concept_id
     (collection_sources (collection_cache ag) env (length (stage_terms query stage))))"
proof -
  obtain r ag1 where c: "collect_results query ag stage env = (r, ag1)"
    by (cases "collect_results query ag stage env")
  have r: "r = fst (collect_results query ag stage env)"
    by (simp add: c)
  have run: "fst (run_stage query ag stage env) =
     (case kw_outcome env of
        Inl e \<Rightarrow> Inl e
      | Inr kw \<Rightarrow>
          Inr \<lparr> sr_query = stage_query query stage,
                sr_variables =
                  \<lparr> rs_items = Some (variable_items env (length (stage_terms query stage))),
                    rs_error = None \<rparr>,
                sr_collections =
                  \<lparr> rs_items = Some (first_by_concept_id
                      (collection_sources (collection_cache ag) env
                         (length (stage_terms query stage)))),
                    rs_error = None \<rparr>,
                sr_granules =
                  \<lparr> rs_items = Some (returned_items (map (granule_outcome env)
                      [0..<min 3 (length (first_by_concept_id
                         (collection_sources (collection_cache ag) env
                            (length (stage_terms query stage)))))])),
                    rs_error = None \<rparr>,
                sr_related_collection_ids =
                  Some (associated_ids env (length (stage_terms query stage))) \<rparr>)"
  proof (cases "kw_outcome env")
    case (Inl e)
    then have "r = Inl e"
      unfolding r collect_results_value by simp
    then show ?thesis
      using Inl c by (simp add: run_stage_def)
  next
    case (Inr kw)
    define n where "n = length (stage_terms query stage)"
    define col where "col =
      \<lparr> col_q = stage_query query stage,
        col_var_results =
          map (\<lambda>out. case out of Inl e \<Rightarrow> error_result e | Inr r \<Rightarrow> r)
            (map (var_outcome env) [0..<n]),
        col_related_unique = associated_ids env n,
        col_results_list =
          [kw] @
          concat (map (\<lambda>out. case out of Inl e \<Rightarrow> [] | Inr r \<Rightarrow> [r])
            (map (short_outcome env) [0..<min 3 n] @ map (science_outcome env) [0..<min 3 n])) @
          [if list_all (\<lambda>cid. collection_cache ag cid \<noteq> None) (associated_ids env n)
           then \<lparr> rs_items = Some [], rs_error = None \<rparr>
           else (case id_outcome env of
                   Inr r \<Rightarrow> r
                 | Inl e \<Rightarrow> \<lparr> rs_items = Some [], rs_error = None \<rparr>)] @
          cached_response
            (map (\<lambda>cid. the (collection_cache ag cid))
               (filter (\<lambda>cid. collection_cache ag cid \<noteq> None) (associated_ids env n))) \<rparr>"
    have col: "r = Inr col"
      unfolding r collect_results_value Inr col_def n_def by simp
    have f1: "col_q col = stage_query query stage"
      and f3: "col_related_unique col = associated_ids env n"
      by (simp_all add: col_def)
    have f2: "concat (map extract_items (col_var_results col)) = variable_items env n"
      unfolding col_def collected.simps var_results_items variable_items_def by (rule refl)
    have f4: "concat (map extract_items (col_results_list col)) =
        collection_sources (collection_cache ag) env n"
      unfolding col_def collected.simps merged_sources collection_sources_def Inr
      by (rule refl)
    note fields = f1 f2 [unfolded n_def] f3 [unfolded n_def] f4 [unfolded n_def]
    show ?thesis
      using c col Inr
      by (simp add: run_stage_def Let_def merge_loop granule_loop fields min.commute)
  qed
  show ?thesis
    using run
    by (simp add: first_by_concept_id_distinct list_all_iff first_by_concept_id_truthy)
qed

theorem stage_merge_witness:
  "map_sum id (\<lambda>out. (map meta_concept_id (extract_items (sr_collections out)),
                      map meta_concept_id (extract_items (sr_variables out)),
                      map meta_concept_id (extract_items (sr_granules out))))
     (fst (run_stage ''rain'' cached_agent two_terms associated_env)) =
   Inr ([Some ''C1'', Some ''C2'', Some ''C3'', Some ''C6'', Some ''C5'', Some ''C4''],
        [Some ''V1'', Some ''V1''],
        [Some ''G1'', Some ''G1''])"
  using stage_merge [of "''rain''" cached_agent two_terms associated_env]
  by code_simp

text \<open>
  C4 as stated fails for the variable list: two terms whose searches both return the
  variable V1 give a stage whose variable list holds V1 twice.
\<close>

theorem stage_variables_counterexample:
  "(case fst (run_stage ''rain'' CMRAgent_init two_terms overlapping_env) of
      Inl e \<Rightarrow> []
    | Inr out \<Rightarrow> map meta_concept_id (extract_items (sr_variables out))) =
     [Some ''V1'', Some ''V1'']"
  by code_simp

text \<open>
  In staged mode \<^verbatim>\<open>run\<close> returns a dictionary without the key
  \<^verbatim>\<open>circuit_breaker_tripped\<close>, and the pipeline step reads the default.
\<close>

lemma staged_flag_absent:
  "cmr_step q (PlanDict keys (st # sts)) env = Inr state \<Longrightarrow>
     final_circuit_breaker_tripped state = False"
  by (auto simp: cmr_step_def CMRAgent_run_def final_circuit_breaker_tripped_def
      split: sum.splits prod.splits)

text \<open>
  C5, evaluated at a failing input. The pipeline hands the planner's plan to the
  orchestrator, which therefore runs in staged mode. When every variable search is
  rejected by the open breaker, the flag of the final response is false, whether the
  rejection arrives as the client raises it (wrapped in \<^verbatim>\<open>RetryError\<close>) or as the bare
  \<^verbatim>\<open>RuntimeError\<close> the orchestrator tests for; in the second case the agent has set its
  own \<^verbatim>\<open>circuit_tripped\<close> and the result dictionary does not carry it. In plain mode
  the same rejection is reported.
\<close>

theorem staged_run_loses_circuit_flag:
  "map_sum id final_circuit_breaker_tripped
     (cmr_step ''rainfall ssa''
        (pipeline_input (Some (PlanningAgent_run None ''rainfall ssa'' [''rainfall ssa''])) [''rainfall ssa''])
        (variables_rejected_env (RetryError circuit_open_error))) = Inr False \<and>
   map_sum id final_circuit_breaker_tripped
     (cmr_step ''rainfall ssa''
        (pipeline_input (Some (PlanningAgent_run None ''rainfall ssa'' [''rainfall ssa''])) [''rainfall ssa''])
        (variables_rejected_env circuit_open_error)) = Inr False \<and>
   circuit_tripped (snd (CMRAgent_run CMRAgent_init ''rainfall ssa''
        (pipeline_input (Some (PlanningAgent_run None ''rainfall ssa'' [''rainfall ssa''])) [''rainfall ssa''])
        (variables_rejected_env circuit_open_error))) \<and>
   map_sum id final_circuit_breaker_tripped
     (cmr_step ''rainfall ssa'' (SubqueryList [''rainfall ssa''])
        (variables_rejected_env circuit_open_error)) = Inr True"
  by code_simp

section \<open>Analysis engine (cmr\_agent/agents/analysis\_agent.py)\<close>

text \<open>
  \<^verbatim>\<open>AnalysisAgent.run\<close>, with every key of the dictionary it returns. The search
  results are the dictionaries the orchestrator builds; their items hold values of the
  JSON types the method reads them as.

  Instants are integers (microseconds since the epoch, all datetimes taken in UTC), and
  \<^verbatim>\<open>timedelta.days\<close> is the floor of the difference divided by one day. The clock
  reading \<^verbatim>\<open>datetime.now\<close> of each search and the plotting library (absent when
  \<^verbatim>\<open>matplotlib\<close> cannot be imported; otherwise it draws the intervals and returns the
  image, or raises) are arguments. The two optional constraints are arguments as well:
  the temporal one absent, not parseable, or a pair of instants.

  Floating-point results are kept as the expressions that produce them: \<open>Lit q\<close> is
  the literal \<open>q\<close> (or a coordinate read with \<^verbatim>\<open>float()\<close>), \<open>OfInt i\<close> an integer
  operand, \<open>Quotient a b\<close> the true division of two integers, \<open>DivBy x k\<close> is
  \<^verbatim>\<open>x / k\<close>, \<open>RoundTo x n\<close> is \<^verbatim>\<open>round(x, n)\<close>, \<open>Plus\<close>, \<open>Minus\<close>, \<open>Times\<close>
  and \<open>Divide\<close> are the four operations, \<open>MaxOf x y\<close> is \<^verbatim>\<open>max(x, y)\<close>, and
  \<open>IfPositive c x y\<close> is \<^verbatim>\<open>x if c > 0 else y\<close>. Where the source divides, the
  divisor is not zero, so none of these operations raises.
  \<^verbatim>\<open>float(resolutions[0])\<close> raises \<^verbatim>\<open>ValueError\<close> on a value that is not a number, and
  nothing in the method catches it.
\<close>

datatype pyfloat =
    Lit rat
  | OfInt int
  | Quotient int int
  | DivBy pyfloat int
  | RoundTo pyfloat nat
  | Plus pyfloat pyfloat
  | Minus pyfloat pyfloat
  | Times pyfloat pyfloat
  | Divide pyfloat pyfloat
  | MaxOf pyfloat pyfloat
  | IfPositive pyfloat pyfloat pyfloat

record analysis_env =
  clock :: "nat \<Rightarrow> int"
  plt :: "((int \<times> int) list \<Rightarrow> py_exception + string) option"

record temporal_gap =
  gap_start :: int
  gap_end :: int
  gap_days :: int

record quality =
  spatial_res_km :: "rat option"
  temporal_res :: "string option"
  temporal_pct :: pyfloat
  spatial_pct :: pyfloat
  completeness_score :: pyfloat
  suitability_for_task :: pyfloat
  tradeoffs :: "string list"
  record_length_days :: "int option"
  q_gap_days :: int

record query_entry =
  qe_query :: string
  collections_found :: nat
  granules_found :: nat
  variables_found :: nat
  providers :: "string list"
  example_collections :: "string list"
  example_variables :: "string list"
  temporal_coverage :: "(int \<times> int) option"
  spatial_extent :: "box option"
  coverage_chart :: "string option"
  related_collections :: "string list"
  resolutions :: "string list"
  latency_days :: "int option"
  temporal_gaps :: "temporal_gap list"
  qe_quality :: quality
  score :: pyfloat

record col_detail =
  cd_concept_id :: string
  cd_instrument :: "string option"
  cd_platform :: "string option"
  cd_temporal_coverage :: "(int \<times> int) option"

record edge =
  e_source :: string
  e_target :: string
  e_type :: string

text \<open>The locals \<^verbatim>\<open>knowledge_nodes\<close> and \<^verbatim>\<open>knowledge_edges\<close>.\<close>

record knowledge =
  kn_collections :: "string set"
  kn_variables :: "string set"
  kn_instruments :: "string set"
  knowledge_edges :: "edge list"

record knowledge_graph =
  nodes_collections :: "string list"
  nodes_variables :: "string list"
  nodes_instruments :: "string list"
  edges :: "edge list"

record dataset_relationship =
  dr_variable :: string
  dr_collections :: "string list"

text \<open>
  The dictionary \<^verbatim>\<open>summary\<close>: the keys it has while the searches are processed
  (\<^verbatim>\<open>related_collections\<close> is created by \<^verbatim>\<open>setdefault\<close> in the loop body, so it is
  absent until the first search has been processed), and the keys assigned after the
  loop. The keys \<^verbatim>\<open>results_paging\<close> and \<^verbatim>\<open>knowledge_links\<close> are assigned constants.
\<close>

record running_summary =
  total_collections :: nat
  total_granules :: nat
  total_variables :: nat
  queries :: "query_entry list"
  top_related_collections :: "col_detail list option"

record summary = running_summary +
  knowledge_graph :: knowledge_graph
  dataset_relationships :: "dataset_relationship list"
  data_refs :: "string list"
  cross_collection_map :: "(string \<times> nat list) list"

definition day_us :: int where
  "day_us = 86400 * 1000000"

definition timedelta_days :: "int \<Rightarrow> int \<Rightarrow> int" where
  "timedelta_days later earlier = (later - earlier) div day_us"

definition provider_of :: "item \<Rightarrow> string" where
  "provider_of c =
     (if truthy (meta_provider_id c) then the (meta_provider_id c) else ''unknown'')"

text \<open>
  The loop over the granules: a range that cannot be parsed skips the rest of the
  granule, its boxes included; a box whose coordinates \<^verbatim>\<open>float()\<close> rejects is skipped.
\<close>

definition box_step :: "box option \<Rightarrow> box option \<Rightarrow> box option" where
  "box_step bbox b =
     (case b of
        None \<Rightarrow> bbox
      | Some (w, s, e, n) \<Rightarrow>
          (case bbox of
             None \<Rightarrow> Some (w, s, e, n)
           | Some (w0, s0, e0, n0) \<Rightarrow> Some (min w0 w, min s0 s, max e0 e, max n0 n)))"

definition coverage_step ::
    "int option \<times> int option \<times> box option \<Rightarrow> item \<Rightarrow> int option \<times> int option \<times> box option" where
  "coverage_step st g =
     (case st of (start, end, bbox) \<Rightarrow>
        (case range_date_time g of
           NoRange \<Rightarrow> (start, end, foldl box_step bbox (bounding_boxes g))
         | BadRange \<Rightarrow> (start, end, bbox)
         | Range b e \<Rightarrow>
             ((if start = None \<or> b < the start then Some b else start),
              (if end = None \<or> e > the end then Some e else end),
              foldl box_step bbox (bounding_boxes g))))"

text \<open>The knowledge graph: the loop over the collections and the loop over the variables.\<close>

definition instrument_step :: "string option \<Rightarrow> knowledge \<Rightarrow> instrument \<Rightarrow> knowledge" where
  "instrument_step cid kn instr =
     (let name = py_or (i_short_name instr) (i_long_name instr)
      in if truthy name
         then (let kn = kn\<lparr> kn_instruments := insert (the name) (kn_instruments kn) \<rparr>
               in if truthy cid
                  then kn\<lparr> knowledge_edges := knowledge_edges kn @
                         [\<lparr> e_source = the cid, e_target = the name,
                            e_type = ''collection-instrument'' \<rparr>] \<rparr>
                  else kn)
         else kn)"

definition collection_knowledge_step :: "knowledge \<Rightarrow> item \<Rightarrow> knowledge" where
  "collection_knowledge_step kn c =
     (let cid = meta_concept_id c;
          kn = (if truthy cid then kn\<lparr> kn_collections := insert (the cid) (kn_collections kn) \<rparr>
                else kn)
      in foldl (\<lambda>kn p. foldl (instrument_step cid) kn (p_instruments p)) kn (umm_platforms c))"

definition association_step :: "string option \<Rightarrow> knowledge \<Rightarrow> assoc \<Rightarrow> knowledge" where
  "association_step vname kn a =
     (let cid = a_concept_id a
      in if truthy cid \<and> truthy vname
         then kn\<lparr> knowledge_edges := knowledge_edges kn @
                [\<lparr> e_source = the vname, e_target = the cid,
                   e_type = ''variable-collection'' \<rparr>] \<rparr>
         else kn)"

definition variable_knowledge_step :: "knowledge \<Rightarrow> item \<Rightarrow> knowledge" where
  "variable_knowledge_step kn v =
     (let vname = umm_name v;
          kn = (if truthy vname then kn\<lparr> kn_variables := insert (the vname) (kn_variables kn) \<rparr>
                else kn)
      in foldl (association_step vname) kn (assoc_collections v))"

text \<open>
  The gaps: the intervals of the granules, none when one of the ranges cannot be parsed
  (the \<^verbatim>\<open>except\<close> clause empties both lists), sorted by their start.
\<close>

definition intervals_of :: "item list \<Rightarrow> (int \<times> int) list" where
  "intervals_of grans =
     (if list_ex (\<lambda>g. range_date_time g = BadRange) grans then []
      else sort_key fst
             (concat (map (\<lambda>g. case range_date_time g of Range b e \<Rightarrow> [(b, e)] | _ \<Rightarrow> []) grans)))"

fun gaps_between :: "(int \<times> int) list \<Rightarrow> temporal_gap list" where
  "gaps_between (previous # current # later) =
     (if fst current > snd previous
      then [\<lparr> gap_start = snd previous, gap_end = fst current,
               gap_days = timedelta_days (fst current) (snd previous) \<rparr>]
      else []) @ gaps_between (current # later)"
| "gaps_between _ = []"

definition generate_coverage_chart ::
    "analysis_env \<Rightarrow> (int \<times> int) list \<Rightarrow> py_exception + string option" where
  "generate_coverage_chart env intervals =
     (case plt env of
        None \<Rightarrow> Inr None
      | Some draw \<Rightarrow>
          if intervals = [] then Inr None
          else (case draw intervals of Inl e \<Rightarrow> Inl e | Inr png \<Rightarrow> Inr (Some png)))"

text \<open>The two overlap measures and the score.\<close>

definition temporal_overlap_days :: "int option \<Rightarrow> int option \<Rightarrow> temporal \<Rightarrow> int" where
  "temporal_overlap_days start end temporal_constraint =
     (if start = None \<or> end = None then 0
      else (case temporal_constraint of
              NoRange \<Rightarrow> 0
            | BadRange \<Rightarrow> 0
            | Range req_start req_end \<Rightarrow>
                (let latest_start = max (the start) req_start;
                     earliest_end = min (the end) req_end
                 in if latest_start \<le> earliest_end
                    then timedelta_days earliest_end latest_start else 0)))"

definition extent_area :: "rat \<Rightarrow> rat \<Rightarrow> rat \<Rightarrow> rat \<Rightarrow> pyfloat" where
  "extent_area w s e n =
     Times (MaxOf (Lit 0) (Minus (Lit e) (Lit w))) (MaxOf (Lit 0) (Minus (Lit n) (Lit s)))"

definition spatial_iou :: "box option \<Rightarrow> box option \<Rightarrow> pyfloat" where
  "spatial_iou bbox bbox_constraint =
     (case bbox of
        None \<Rightarrow> Lit 0
      | Some (w1, s1, e1, n1) \<Rightarrow>
          (case bbox_constraint of
             None \<Rightarrow> Lit 0
           | Some (w2, s2, e2, n2) \<Rightarrow>
               (let inter_w = max w1 w2;
                    inter_s = max s1 s2;
                    inter_e = min e1 e2;
                    inter_n = min n1 n2;
                    inter_area = extent_area inter_w inter_s inter_e inter_n;
                    area1 = extent_area w1 s1 e1 n1;
                    area2 = extent_area w2 s2 e2 n2;
                    union = IfPositive (Minus (Plus area1 area2) inter_area)
                              (Minus (Plus area1 area2) inter_area) (Lit 1)
                in Divide inter_area union)))"

definition float_of_first :: "(string \<times> rat option) list \<Rightarrow> py_exception + rat option" where
  "float_of_first found =
     (case found of
        [] \<Rightarrow> Inr None
      | (text, None) # _ \<Rightarrow> Inl (ValueError ''could not convert string to float'')
      | (text, Some r) # _ \<Rightarrow> Inr (Some r))"

text \<open>The details of the collections that have a concept id.\<close>

definition platform_step ::
    "string option \<times> string option \<Rightarrow> platform \<Rightarrow> string option \<times> string option" where
  "platform_step st p =
     (case st of (platform, instrument) \<Rightarrow>
        (py_or (py_or platform (p_short_name p)) (p_long_name p),
         foldl (\<lambda>instrument instr.
                  py_or (py_or instrument (i_short_name instr)) (i_long_name instr))
           instrument (p_instruments p)))"

definition col_details_of :: "item list \<Rightarrow> (int \<times> int) option \<Rightarrow> col_detail list" where
  "col_details_of cols coverage =
     concat (map (\<lambda>c.
        if truthy (meta_concept_id c)
        then (let (platform, instrument) = foldl platform_step (None, None) (umm_platforms c)
              in [\<lparr> cd_concept_id = the (meta_concept_id c), cd_instrument = instrument,
                     cd_platform = platform, cd_temporal_coverage = coverage \<rparr>])
        else []) cols)"

text \<open>
  One pass of the loop over the searches, up to the entry of the query: it raises when
  the plotting library does, or when the first resolution is not a number.
\<close>

definition analyze_search ::
    "analysis_env \<Rightarrow> nat \<Rightarrow> temporal \<Rightarrow> box option \<Rightarrow> search_result \<Rightarrow>
     py_exception + query_entry" where
  "analyze_search env idx temporal_constraint bbox_constraint s =
     (let cols = extract_items (sr_collections s);
          grans = extract_items (sr_granules s);
          vars = extract_items (sr_variables s);
          providers = set (map provider_of cols);
          titles = map (\<lambda>c. py_or (umm_short_name c) (umm_long_name c)) (take 5 cols);
          (start, end, bbox) = foldl coverage_step (None, None, None) grans;
          coverage = (if start \<noteq> None \<and> end \<noteq> None then Some (the start, the end) else None);
          record_length_days =
            (if start \<noteq> None \<and> end \<noteq> None then Some (timedelta_days (the end) (the start))
             else None);
          example_vars =
            concat (map (\<lambda>v. if truthy (umm_name v) then [the (umm_name v)] else []) (take 5 vars));
          resolutions = concat (map spatial_resolutions (take 5 cols));
          latency_days =
            (if end \<noteq> None then Some (timedelta_days (clock env idx) (the end)) else None);
          intervals = intervals_of grans;
          temporal_gaps = gaps_between intervals
      in case generate_coverage_chart env intervals of
           Inl e \<Rightarrow> Inl e
         | Inr chart \<Rightarrow>
             (let t_days = temporal_overlap_days start end temporal_constraint;
                  s_iou = spatial_iou bbox bbox_constraint;
                  res_score = (if resolutions \<noteq> [] then Lit 1 else Lit 0);
                  score = Plus (Plus (Times (Divide (OfInt t_days) (Lit 365)) (Lit (1 / 2)))
                                     (Times s_iou (Lit (3 / 10))))
                               (Times res_score (Lit (1 / 5)));
                  has_data = (cols \<noteq> [] \<or> grans \<noteq> [] \<or> vars \<noteq> []);
                  missing_days =
                    (if temporal_gaps \<noteq> [] then sum_list (map gap_days temporal_gaps) else 0);
                  temporal_pct =
                    (case record_length_days of
                       None \<Rightarrow> Lit 0
                     | Some rl \<Rightarrow>
                         if rl \<noteq> 0 \<and> rl > 0
                         then RoundTo (Quotient (100 * (rl - missing_days)) rl) 1
                         else Lit 0)
              in case float_of_first resolutions of
                   Inl e \<Rightarrow> Inl e
                 | Inr res_km \<Rightarrow>
                     (let quality =
                            \<lparr> spatial_res_km = res_km,
                              temporal_res = (if has_data then Some ''hourly'' else None),
                              temporal_pct = temporal_pct,
                              spatial_pct =
                                (if has_data then RoundTo (Times s_iou (Lit 100)) 1 else Lit 0),
                              completeness_score =
                                (if has_data then RoundTo (DivBy temporal_pct 100) 3 else Lit 0),
                              suitability_for_task =
                                (if has_data then RoundTo score 3 else Lit 0),
                              tradeoffs =
                                (if has_data then [''coarse grid vs long record''] else []),
                              record_length_days = record_length_days,
                              q_gap_days = missing_days \<rparr>
                      in Inr \<lparr> qe_query = sr_query s,
                               collections_found = length cols,
                               granules_found = length grans,
                               variables_found = length vars,
                               providers =
                                 sorted_list_of_set (Set.filter (\<lambda>p. p \<noteq> []) providers),
                               example_collections =
                                 concat (map (\<lambda>t. if truthy t then [the t] else []) titles),
                               example_variables = example_vars,
                               temporal_coverage = coverage,
                               spatial_extent = bbox,
                               coverage_chart = chart,
                               related_collections =
                                 concat (map (\<lambda>c. if truthy (meta_concept_id c)
                                                    then [the (meta_concept_id c)] else [])
                                           cols),
                               resolutions = map fst resolutions,
                               latency_days = latency_days,
                               temporal_gaps = temporal_gaps,
                               qe_quality = quality,
                               score = RoundTo score 3 \<rparr>)))"

text \<open>
  The body of the loop: the totals, the knowledge graph, the entry, and the details of
  the related collections, which \<^verbatim>\<open>setdefault\<close> appends to the list under
  \<^verbatim>\<open>related_collections\<close>, creating it when it is absent.
\<close>

definition analyze_step ::
    "analysis_env \<Rightarrow> temporal \<Rightarrow> box option \<Rightarrow>
     py_exception + running_summary \<times> knowledge \<Rightarrow> search_result \<Rightarrow>
     py_exception + running_summary \<times> knowledge" where
  "analyze_step env temporal_constraint bbox_constraint acc s =
     (case acc of
        Inl e \<Rightarrow> Inl e
      | Inr (sm, kn) \<Rightarrow>
          (let cols = extract_items (sr_collections s);
               vars = extract_items (sr_variables s);
               kn = foldl collection_knowledge_step kn cols;
               kn = foldl variable_knowledge_step kn vars
           in case analyze_search env (length (queries sm)) temporal_constraint bbox_constraint s of
                Inl e \<Rightarrow> Inl e
              | Inr entry \<Rightarrow>
                  Inr (sm\<lparr> total_collections := total_collections sm + collections_found entry,
                           total_granules := total_granules sm + granules_found entry,
                           total_variables := total_variables sm + variables_found entry,
                           queries := queries sm @ [entry],
                           top_related_collections :=
                             Some ((case top_related_collections sm of None \<Rightarrow> [] | Some rc \<Rightarrow> rc)
                                   @ col_details_of cols (temporal_coverage entry)) \<rparr>,
                       kn)))"

text \<open>The dataset relationships: the collections that share a variable.\<close>

definition setdefault_add ::
    "(string \<times> string set) list \<Rightarrow> string \<Rightarrow> string \<Rightarrow> (string \<times> string set) list" where
  "setdefault_add d var col =
     (if var \<in> set (map fst d)
      then map (\<lambda>(k, cols). if k = var then (k, insert col cols) else (k, cols)) d
      else d @ [(var, {col})])"

definition var_to_cols :: "edge list \<Rightarrow> (string \<times> string set) list" where
  "var_to_cols es =
     foldl (\<lambda>d e. if e_type e = ''variable-collection''
                   then setdefault_add d (e_source e) (e_target e) else d) [] es"

definition dataset_rels :: "edge list \<Rightarrow> dataset_relationship list" where
  "dataset_rels es =
     concat (map (\<lambda>(var, cols_set).
        let cols = sorted_list_of_set (Set.filter (\<lambda>c. c \<noteq> []) cols_set)
        in if length cols > 1 then [\<lparr> dr_variable = var, dr_collections = cols \<rparr>] else [])
       (var_to_cols es))"

text \<open>The cross-collection map.\<close>

definition setdefault_append :: "(string \<times> nat list) list \<Rightarrow> string \<Rightarrow> nat \<Rightarrow> (string \<times> nat list) list" where
  "setdefault_append d cid idx =
     (if cid \<in> set (map fst d)
      then map (\<lambda>(k, qs). if k = cid then (k, qs @ [idx]) else (k, qs)) d
      else d @ [(cid, [idx])])"

definition col_to_queries :: "query_entry list \<Rightarrow> (string \<times> nat list) list" where
  "col_to_queries qs =
     foldl (\<lambda>d (idx, q). foldl (\<lambda>d cid. setdefault_append d cid idx) d (related_collections q))
       [] (enumerate 0 qs)"

definition AnalysisAgent_run ::
    "analysis_env \<Rightarrow> run_result option \<Rightarrow> temporal \<Rightarrow> box option \<Rightarrow>
     py_exception + summary" where
  "AnalysisAgent_run env results temporal_constraint bbox_constraint =
     (let searches = (case results of None \<Rightarrow> [] | Some res \<Rightarrow> searches res);
          summary = \<lparr> total_collections = 0, total_granules = 0, total_variables = 0,
                      queries = [], top_related_collections = None \<rparr>;
          knowledge = \<lparr> kn_collections = {}, kn_variables = {}, kn_instruments = {},
                        knowledge_edges = [] \<rparr>
      in case foldl (analyze_step env temporal_constraint bbox_constraint)
                (Inr (summary, knowledge)) searches of
           Inl e \<Rightarrow> Inl e
         | Inr (sm, kn) \<Rightarrow>
             Inr \<lparr> total_collections = total_collections sm,
                   total_granules = total_granules sm,
                   total_variables = total_variables sm,
                   queries = queries sm,
                   top_related_collections = top_related_collections sm,
                   knowledge_graph =
                     \<lparr> nodes_collections = sorted_list_of_set (kn_collections kn),
                       nodes_variables = sorted_list_of_set (kn_variables kn),
                       nodes_instruments = sorted_list_of_set (kn_instruments kn),
                       edges = knowledge_edges kn \<rparr>,
                   dataset_relationships = dataset_rels (knowledge_edges kn),
                   data_refs =
                     map cd_concept_id
                       (take 2 (case top_related_collections sm of None \<Rightarrow> [] | Some rc \<Rightarrow> rc)),
                   cross_collection_map =
                     filter (\<lambda>(cid, qs). length qs > 1) (col_to_queries (queries sm)) \<rparr>)"

text \<open>
  The result as the Python dictionary it is: a value is null, a boolean, an integer, a
  float, a string, a list or a dictionary with its keys in insertion order. \<open>PDate t\<close>
  is the string \<^verbatim>\<open>strftime('%Y-%m-%d')\<close> makes of the instant \<open>t\<close>, and \<open>PJoin\<close> the
  concatenation of strings. The functions below follow the dictionary literals of the
  source key by key.
\<close>

datatype pyval =
    PNone
  | PBool bool
  | PInt int
  | PFloat pyfloat
  | PStr string
  | PDate int
  | PJoin "pyval list"
  | PList "pyval list"
  | PDict "(string \<times> pyval) list"

fun str_nat :: "nat \<Rightarrow> string" where
  "str_nat n =
     (if n < 10 then [digit_char (int n)]
      else str_nat (n div 10) @ [digit_char (int (n mod 10))])"

definition py_str :: "int \<Rightarrow> string" where
  "py_str i = (if i < 0 then CHR ''-'' # str_nat (nat (- i)) else str_nat (nat i))"

definition opt_str :: "string option \<Rightarrow> pyval" where
  "opt_str v = (case v of None \<Rightarrow> PNone | Some s \<Rightarrow> PStr s)"

definition opt_int :: "int option \<Rightarrow> pyval" where
  "opt_int v = (case v of None \<Rightarrow> PNone | Some i \<Rightarrow> PInt i)"

definition str_list :: "string list \<Rightarrow> pyval" where
  "str_list xs = PList (map PStr xs)"

definition coverage_dict :: "(int \<times> int) option \<Rightarrow> pyval" where
  "coverage_dict coverage =
     (case coverage of
        None \<Rightarrow> PDict []
      | Some (start, end) \<Rightarrow> PDict [(''start'', PDate start), (''end'', PDate end)])"

definition spatial_dict :: "box option \<Rightarrow> pyval" where
  "spatial_dict bbox =
     (case bbox of
        None \<Rightarrow> PDict []
      | Some (w, s, e, n) \<Rightarrow>
          PDict [(''bbox'', PList [PFloat (Lit w), PFloat (Lit s), PFloat (Lit e), PFloat (Lit n)])])"

definition gap_dict :: "temporal_gap \<Rightarrow> pyval" where
  "gap_dict g =
     PDict [(''gap_start'', PDate (gap_start g)),
            (''gap_end'', PDate (gap_end g)),
            (''gap_days'', PStr (py_str (gap_days g)))]"

definition gaps_dict :: "temporal_gap list \<Rightarrow> pyval" where
  "gaps_dict gs =
     PDict [(''missing_dates'',
               PList (map (\<lambda>g. PJoin [PDate (gap_start g), PStr '':'', PDate (gap_end g)]) gs)),
            (''suspected_causes'', str_list (if gs \<noteq> [] then [''instrument outage''] else [])),
            (''mitigation'', str_list (if gs \<noteq> [] then [''blend with X''] else []))]"

definition quality_dict :: "quality \<Rightarrow> pyval" where
  "quality_dict q =
     PDict [(''spatial_res_km'',
               (case spatial_res_km q of None \<Rightarrow> PNone | Some r \<Rightarrow> PFloat (Lit r))),
            (''temporal_res'', opt_str (temporal_res q)),
            (''coverage'',
               PDict [(''temporal_pct'', PFloat (temporal_pct q)),
                      (''spatial_pct'', PFloat (spatial_pct q))]),
            (''completeness_score'', PFloat (completeness_score q)),
            (''suitability_for_task'', PFloat (suitability_for_task q)),
            (''tradeoffs'', str_list (tradeoffs q)),
            (''record_length_days'', opt_int (record_length_days q)),
            (''gap_days'', PInt (q_gap_days q))]"

definition query_entry_dict :: "query_entry \<Rightarrow> pyval" where
  "query_entry_dict entry =
     PDict [(''query'', PStr (qe_query entry)),
            (''collections_found'', PInt (int (collections_found entry))),
            (''granules_found'', PInt (int (granules_found entry))),
            (''variables_found'', PInt (int (variables_found entry))),
            (''providers'', str_list (providers entry)),
            (''example_collections'', str_list (example_collections entry)),
            (''example_variables'', str_list (example_variables entry)),
            (''temporal_coverage'', coverage_dict (temporal_coverage entry)),
            (''spatial_extent'', spatial_dict (spatial_extent entry)),
            (''coverage_chart'', opt_str (coverage_chart entry)),
            (''related_collections'', str_list (related_collections entry)),
            (''resolutions'', str_list (resolutions entry)),
            (''latency_days'', opt_int (latency_days entry)),
            (''temporal_gaps'', PList (map gap_dict (temporal_gaps entry))),
            (''gaps'', gaps_dict (temporal_gaps entry)),
            (''quality'', quality_dict (qe_quality entry)),
            (''score'', PFloat (score entry))]"

definition col_detail_dict :: "col_detail \<Rightarrow> pyval" where
  "col_detail_dict d =
     PDict [(''concept_id'', PStr (cd_concept_id d)),
            (''why_related'', PStr ''variable association''),
            (''instrument'', opt_str (cd_instrument d)),
            (''platform'', opt_str (cd_platform d)),
            (''temporal_coverage'', coverage_dict (cd_temporal_coverage d))]"

definition edge_dict :: "edge \<Rightarrow> pyval" where
  "edge_dict e =
     PDict [(''source'', PStr (e_source e)), (''target'', PStr (e_target e)),
            (''type'', PStr (e_type e))]"

definition knowledge_graph_dict :: "knowledge_graph \<Rightarrow> pyval" where
  "knowledge_graph_dict g =
     PDict [(''nodes'',
               PDict [(''collections'', str_list (nodes_collections g)),
                      (''variables'', str_list (nodes_variables g)),
                      (''instruments'', str_list (nodes_instruments g))]),
            (''edges'', PList (map edge_dict (edges g)))]"

definition dataset_relationship_dict :: "dataset_relationship \<Rightarrow> pyval" where
  "dataset_relationship_dict r =
     PDict [(''variable'', PStr (dr_variable r)),
            (''collections'', str_list (dr_collections r)),
            (''reason'', PStr ''Collections share variable'')]"

definition summary_dict :: "summary \<Rightarrow> (string \<times> pyval) list" where
  "summary_dict sm =
     [(''total_collections'', PInt (int (total_collections sm))),
      (''total_granules'', PInt (int (total_granules sm))),
      (''total_variables'', PInt (int (total_variables sm))),
      (''queries'', PList (map query_entry_dict (queries sm)))] @
     (case top_related_collections sm of
        None \<Rightarrow> []
      | Some rc \<Rightarrow> [(''related_collections'', PList (map col_detail_dict rc))]) @
     [(''knowledge_graph'', knowledge_graph_dict (knowledge_graph sm)),
      (''dataset_relationships'', PList (map dataset_relationship_dict (dataset_relationships sm))),
      (''results_paging'',
         PDict [(''page'', PInt 1), (''page_size'', PInt 50), (''next_token'', PStr [])]),
      (''knowledge_links'', PList []),
      (''data_refs'', str_list (data_refs sm)),
      (''cross_collection_map'',
         PDict (map (\<lambda>(cid, qs). (cid, PList (map (\<lambda>i. PInt (int i)) qs)))
                  (cross_collection_map sm)))]"



text \<open>A search result with given item lists, for the examples.\<close>

definition plain_result :: "string \<Rightarrow> item list \<Rightarrow> item list \<Rightarrow> item list \<Rightarrow> search_result" where
  "plain_result q cols grans vars =
     \<lparr> sr_query = q,
       sr_variables = \<lparr> rs_items = Some vars, rs_error = None \<rparr>,
       sr_collections = \<lparr> rs_items = Some cols, rs_error = None \<rparr>,
       sr_granules = \<lparr> rs_items = Some grans, rs_error = None \<rparr>,
       sr_related_collection_ids = None \<rparr>"

text \<open>An environment without a plotting library, whose clock reads zero.\<close>

definition no_plot_env :: analysis_env where
  "no_plot_env = \<lparr> clock = (\<lambda>i. 0), plt = None \<rparr>"






text \<open>
  The indices of the queries that list a concept id, once for each time the query lists
  it; the entry of a key in an insertion-ordered dict; and the dicts that the map loop
  produces (keys distinct, no empty entry).
\<close>

definition indices_with_multiplicity :: "nat \<Rightarrow> query_entry list \<Rightarrow> string \<Rightarrow> nat list" where
  "indices_with_multiplicity n qs cid =
     concat (map (\<lambda>(i, q). replicate (count_list (related_collections q) cid) i) (enumerate n qs))"

definition entry_of :: "(string \<times> nat list) list \<Rightarrow> string \<Rightarrow> nat list" where
  "entry_of d k = (case map_of d k of None \<Rightarrow> [] | Some l \<Rightarrow> l)"

definition well_formed_dict :: "(string \<times> nat list) list \<Rightarrow> bool" where
  "well_formed_dict d = (distinct (map fst d) \<and> list_all (\<lambda>(k, l). l \<noteq> []) d)"

subsection \<open>Facts about the analysis\<close>








text \<open>
  The keys of the result in general: \<^verbatim>\<open>related_collections\<close> is present exactly when
  there is a search, and the other keys always.
\<close>

lemma analyze_loop_failed: "foldl (analyze_step env tc bc) (Inl e) ss = Inl e"
  by (induction ss) (simp_all add: analyze_step_def)

lemma analyze_loop_related:
  "foldl (analyze_step env tc bc) (Inr (sm, kn)) ss = Inr (sm2, kn2) \<Longrightarrow>
   (top_related_collections sm2 = None) = (ss = [] \<and> top_related_collections sm = None)"
proof (induction ss arbitrary: sm kn)
  case Nil
  then show ?case by simp
next
  case (Cons s ss)
  show ?case
  proof (cases "analyze_step env tc bc (Inr (sm, kn)) s")
    case (Inl e)
    then show ?thesis
      using Cons.prems by (simp add: analyze_loop_failed)
  next
    case (Inr st)
    obtain sm1 kn1 where st: "st = (sm1, kn1)"
      by (cases st)
    have "top_related_collections sm1 \<noteq> None"
      using Inr st by (auto simp: analyze_step_def Let_def split: sum.splits)
    moreover have "foldl (analyze_step env tc bc) (Inr (sm1, kn1)) ss = Inr (sm2, kn2)"
      using Cons.prems Inr st by simp
    ultimately show ?thesis
      using Cons.IH by simp
  qed
qed

lemma summary_keys:
  assumes "AnalysisAgent_run env results tc bc = Inr sm"
  shows "map fst (summary_dict sm) =
     [''total_collections'', ''total_granules'', ''total_variables'', ''queries''] @
     (if (case results of None \<Rightarrow> [] | Some res \<Rightarrow> searches res) = [] then []
      else [''related_collections'']) @
     [''knowledge_graph'', ''dataset_relationships'', ''results_paging'', ''knowledge_links'',
      ''data_refs'', ''cross_collection_map'']"
proof -
  define ss where "ss = (case results of None \<Rightarrow> [] | Some res \<Rightarrow> searches res)"
  define sm0 where "sm0 = \<lparr> total_collections = 0, total_granules = 0, total_variables = 0,
      queries = [], top_related_collections = None \<rparr>"
  define kn0 where "kn0 = \<lparr> kn_collections = {}, kn_variables = {}, kn_instruments = {},
      knowledge_edges = [] \<rparr>"
  from assms obtain sm2 kn2 where
    loop: "foldl (analyze_step env tc bc) (Inr (sm0, kn0)) ss = Inr (sm2, kn2)"
    and top: "top_related_collections sm = top_related_collections sm2"
    by (auto simp: AnalysisAgent_run_def Let_def ss_def sm0_def kn0_def
        split: sum.splits prod.splits)
  have "(top_related_collections sm = None) = (ss = [])"
    using analyze_loop_related [OF loop] by (simp add: top sm0_def)
  then show ?thesis
    unfolding ss_def [symmetric] by (cases "top_related_collections sm") (auto simp: summary_dict_def)
qed

text \<open>
  The cross-collection map in general: an id is mapped to the indices of the queries
  listing it, with multiplicity, when there are at least two of them. When no query lists
  an id twice, these are the indices of the distinct queries that list it.
\<close>

lemma setdefault_append_keys:
  "set (map fst (setdefault_append d c i)) = insert c (set (map fst d))"
  by (auto simp: setdefault_append_def split: if_splits prod.splits) force+

lemma setdefault_append_map_fst:
  "c \<in> set (map fst d) \<Longrightarrow> map fst (setdefault_append d c i) = map fst d"
  by (induction d) (auto simp: setdefault_append_def)

lemma setdefault_append_wf:
  "well_formed_dict d \<Longrightarrow> well_formed_dict (setdefault_append d c i)"
proof (cases "c \<in> set (map fst d)")
  case True
  assume wf: "well_formed_dict d"
  have "list_all (\<lambda>(k, l). l \<noteq> []) (setdefault_append d c i)"
    using wf True by (auto simp: well_formed_dict_def setdefault_append_def list_all_iff split: if_splits)
  then show ?thesis
    using wf setdefault_append_map_fst [OF True] by (simp add: well_formed_dict_def)
next
  case False
  assume "well_formed_dict d"
  then show ?thesis
    using False by (auto simp: well_formed_dict_def setdefault_append_def)
qed

lemma map_of_update_entry:
  "map_of (map (\<lambda>(k, qs). if k = c then (k, qs @ [i]) else (k, qs)) d) k =
     (if k = c then map_option (\<lambda>l. l @ [i]) (map_of d c) else map_of d k)"
  by (induction d) auto

lemma setdefault_append_entry:
  "entry_of (setdefault_append d c i) k = entry_of d k @ (if k = c then [i] else [])"
proof (cases "c \<in> set (map fst d)")
  case True
  then obtain l where "map_of d c = Some l"
    by (metis map_of_eq_None_iff not_Some_eq set_map)
  then show ?thesis
    using True by (simp add: entry_of_def setdefault_append_def map_of_update_entry)
next
  case False
  then have "map_of d c = None"
    by (simp add: map_of_eq_None_iff)
  then show ?thesis
    using False by (auto simp: entry_of_def setdefault_append_def split: option.splits)
qed

lemma inner_loop:
  "well_formed_dict d \<Longrightarrow>
   well_formed_dict (foldl (\<lambda>d cid. setdefault_append d cid i) d cids) \<and>
   entry_of (foldl (\<lambda>d cid. setdefault_append d cid i) d cids) k =
     entry_of d k @ replicate (count_list cids k) i"
proof (induction cids arbitrary: d)
  case Nil
  then show ?case by simp
next
  case (Cons c cids)
  have wf: "well_formed_dict (setdefault_append d c i)"
    using Cons.prems by (rule setdefault_append_wf)
  show ?case
    using Cons.IH [OF wf] by (simp add: setdefault_append_entry replicate_app_Cons_same)
qed

lemma outer_loop:
  "well_formed_dict d \<Longrightarrow>
   well_formed_dict
     (foldl (\<lambda>d (idx, q). foldl (\<lambda>d cid. setdefault_append d cid idx) d (related_collections q))
        d (enumerate n qs)) \<and>
   entry_of
     (foldl (\<lambda>d (idx, q). foldl (\<lambda>d cid. setdefault_append d cid idx) d (related_collections q))
        d (enumerate n qs)) k =
     entry_of d k @ indices_with_multiplicity n qs k"
proof (induction qs arbitrary: d n)
  case Nil
  then show ?case by (simp add: indices_with_multiplicity_def)
next
  case (Cons q qs)
  let ?d1 = "foldl (\<lambda>d cid. setdefault_append d cid n) d (related_collections q)"
  have wf: "well_formed_dict ?d1"
    and e1: "entry_of ?d1 k = entry_of d k @ replicate (count_list (related_collections q) k) n"
    using inner_loop [OF Cons.prems, of n "related_collections q" k] by blast+
  show ?case
    using Cons.IH [OF wf, of "Suc n"] by (simp add: e1 indices_with_multiplicity_def)
qed

lemma col_to_queries_entry:
  "well_formed_dict (col_to_queries qs) \<and>
   entry_of (col_to_queries qs) k = indices_with_multiplicity 0 qs k"
  unfolding col_to_queries_def
  using outer_loop [of "[]" 0 qs k] by (simp add: well_formed_dict_def entry_of_def)

lemma map_of_filter_long:
  "well_formed_dict d \<Longrightarrow>
   map_of (filter (\<lambda>(cid, qs). length qs > 1) d) k =
     (if length (entry_of d k) > 1 then Some (entry_of d k) else None)"
proof (induction d)
  case Nil
  show ?case by (simp add: entry_of_def)
next
  case (Cons p d)
  obtain c l where p: "p = (c, l)" by (cases p)
  have wf: "well_formed_dict d" and c: "c \<notin> set (map fst d)"
    using Cons.prems by (auto simp: well_formed_dict_def p)
  have notin: "map_of (filter (\<lambda>(cid, qs). length qs > 1) d) c = None"
    using c by (auto simp: map_of_eq_None_iff)
  show ?case
    using Cons.IH [OF wf] notin
    by (auto simp: p entry_of_def split: option.splits)
qed

lemma run_queries:
  "AnalysisAgent_run env r tc bc = Inr sm \<Longrightarrow>
   cross_collection_map sm =
     filter (\<lambda>(cid, qs). length qs > 1) (col_to_queries (queries sm))"
  by (auto simp: AnalysisAgent_run_def Let_def split: sum.splits prod.splits)

lemma cross_map_lookup:
  assumes "AnalysisAgent_run env r tc bc = Inr sm"
  shows "map_of (cross_collection_map sm) cid =
     (if length (indices_with_multiplicity 0 (queries sm) cid) > 1
      then Some (indices_with_multiplicity 0 (queries sm) cid) else None)"
proof -
  have wf: "well_formed_dict (col_to_queries (queries sm))"
    and e: "entry_of (col_to_queries (queries sm)) cid = indices_with_multiplicity 0 (queries sm) cid"
    using col_to_queries_entry [of "queries sm" cid] by blast+
  show ?thesis
    unfolding run_queries [OF assms] map_of_filter_long [OF wf] e by (rule refl)
qed

lemma count_list_distinct:
  "distinct xs \<Longrightarrow> count_list xs x = (if x \<in> set xs then 1 else 0)"
  by (induction xs) auto

lemma indices_distinct:
  "list_all (\<lambda>q. distinct (related_collections q)) qs \<Longrightarrow>
   indices_with_multiplicity n qs cid =
     map fst (filter (\<lambda>(i, q). cid \<in> set (related_collections q)) (enumerate n qs))"
proof (induction qs arbitrary: n)
  case Nil
  show ?case by (simp add: indices_with_multiplicity_def)
next
  case (Cons q qs)
  then have d: "distinct (related_collections q)" and rest: "list_all (\<lambda>q. distinct (related_collections q)) qs"
    by simp_all
  have "count_list (related_collections q) cid = (if cid \<in> set (related_collections q) then 1 else 0)"
    using d by (rule count_list_distinct)
  then show ?case
    using Cons.IH [OF rest, of "Suc n"] by (simp add: indices_with_multiplicity_def)
qed

lemma cross_map_without_repeats:
  assumes "AnalysisAgent_run env r tc bc = Inr sm"
    and "list_all (\<lambda>q. distinct (related_collections q)) (queries sm)"
  shows "map_of (cross_collection_map sm) cid =
     (let idxs = map fst (filter (\<lambda>(i, q). cid \<in> set (related_collections q))
                            (enumerate 0 (queries sm)))
      in if length idxs \<ge> 2 then Some idxs else None)"
  using cross_map_lookup [OF assms(1), of cid] indices_distinct [OF assms(2), of 0 cid]
  by (simp add: Let_def Suc_le_eq numeral_2_eq_2)





text \<open>
  C6, evaluated. The map is built from the per-query lists of related collections,
  which hold one entry for each collection item of the query, and an id is kept when
  its list of indices is longer than one. A concept id that occurs twice among the
  collections of a single query is therefore present, mapped to that query's index
  twice; an id in the queries 0 and 1 maps to [0, 1], and ids in one query each are absent.
\<close>

theorem cross_collection_map_examples:
  "map_sum id cross_collection_map
     (AnalysisAgent_run no_plot_env (Some \<lparr> searches =
        [plain_result ''q1'' [item_of ''C1'', item_of ''C1''] [] []],
        circuit_breaker_tripped = None \<rparr>) NoRange None) = Inr [(''C1'', [0, 0])] \<and>
   map_sum id cross_collection_map
     (AnalysisAgent_run no_plot_env (Some \<lparr> searches =
        [plain_result ''q1'' [item_of ''C1''] [] [], plain_result ''q2'' [item_of ''C1''] [] []],
        circuit_breaker_tripped = None \<rparr>) NoRange None) = Inr [(''C1'', [0, 1])] \<and>
   map_sum id cross_collection_map
     (AnalysisAgent_run no_plot_env (Some \<lparr> searches =
        [plain_result ''q1'' [item_of ''C1''] [] [], plain_result ''q2'' [item_of ''C2''] [] []],
        circuit_breaker_tripped = None \<rparr>) NoRange None) = Inr []"
  by code_simp

end
